theory Spec2Isabelle
  imports
    Main
    "HOL-Library.Word"
    "HOL-Library.Char_ord"
    "HOL-Library.List_Lexorder"
    "HOL-Library.Product_Lexorder"
    "HOL-Library.Multiset"
begin

section \<open>JavaScript values and strings\<close>

text \<open>
  The signing code of \<^verbatim>\<open>src/sigv4.ts\<close> and \<^verbatim>\<open>src/utils.ts\<close> works on strings and on
  string-keyed objects. A JavaScript string is a sequence of UTF-16 code units; here a
  string is a \<^typ>\<open>string\<close>, and a \<^typ>\<open>char\<close> \<open>c\<close> stands for the code unit \<open>of_char c\<close>.
  The model therefore covers the strings whose code units lie in U+0000 .. U+00FF
  (ASCII and Latin-1). The order \<open><\<close> on \<^typ>\<open>string\<close> (lexicographic on code units, a
  proper prefix being smaller) is the order of the JavaScript operator \<^verbatim>\<open><\<close> on strings.

  A field that TypeScript types as \<^verbatim>\<open>string\<close> can, without strict null checks, hold
  \<^verbatim>\<open>undefined\<close> or \<^verbatim>\<open>null\<close> as well; \<open>assertProps\<close> tells the two apart.
\<close>

datatype jsval = Undefined | Null | Str string

text \<open>String conversion, as performed by \<^verbatim>\<open>+\<close> on a string and by a template literal.\<close>

fun ToString :: "jsval \<Rightarrow> string" where
  "ToString Undefined = ''undefined''"
| "ToString Null = ''null''"
| "ToString (Str s) = s"

datatype error =
    Thrown string  \<comment> \<open>\<^verbatim>\<open>throw\<close> of a bare string, as \<open>assertProps\<close> does\<close>
  | TypeError      \<comment> \<open>a method called on \<^verbatim>\<open>null\<close>, or \<^verbatim>\<open>url.parse\<close> of a non-string\<close>
  | LibraryError string  \<comment> \<open>raised inside \<^verbatim>\<open>url.parse\<close> or \<^verbatim>\<open>JSON.stringify\<close>\<close>
  | URIError       \<comment> \<open>\<^verbatim>\<open>encodeURI\<close> of a string with an unpaired surrogate\<close>

abbreviation NL :: char where "NL \<equiv> CHR 0x0A"
abbreviation QUOTE :: char where "QUOTE \<equiv> CHR 0x27"

subsection \<open>String built-ins\<close>

text \<open>
  White space as matched by \<^verbatim>\<open>\s\<close> and removed by \<^verbatim>\<open>trim()\<close>: TAB, LF, VT, FF, CR, SPACE
  and NO-BREAK SPACE are the code units below U+0100 in that class.
\<close>

definition is_space :: "char \<Rightarrow> bool" where
  "is_space c \<longleftrightarrow> of_char c \<in> {9, 10, 11, 12, 13, 32, 160 :: nat}"

definition trim :: "string \<Rightarrow> string" where
  "trim s = rev (dropWhile is_space (rev (dropWhile is_space s)))"

text \<open>\<^verbatim>\<open>s.replace(/\s+/g, ' ')\<close>: every maximal run of white space becomes one space.\<close>

function replace_spaces :: "string \<Rightarrow> string" where
  "replace_spaces [] = []"
| "replace_spaces (c # cs) =
     (if is_space c then CHR '' '' # replace_spaces (dropWhile is_space cs)
      else c # replace_spaces cs)"
  by pat_completeness auto
termination
  by (relation "measure length") (auto simp: le_imp_less_Suc length_dropWhile_le)

text \<open>
  Case mapping. Below U+0100 the letters with a lower-case partner are A-Z and
  U+00C0 .. U+00DE without the multiplication sign U+00D7; the partner is 32 code units up,
  which is bit 5 set. \<open>toLowerCase\<close> maps the range into itself.
\<close>

definition is_upper :: "char \<Rightarrow> bool" where
  "is_upper c \<longleftrightarrow> (let n = of_char c :: nat in
     (65 \<le> n \<and> n \<le> 90) \<or> (192 \<le> n \<and> n \<le> 222 \<and> n \<noteq> 215))"

definition is_lower :: "char \<Rightarrow> bool" where
  "is_lower c \<longleftrightarrow> (let n = of_char c :: nat in
     (97 \<le> n \<and> n \<le> 122) \<or> (224 \<le> n \<and> n \<le> 254 \<and> n \<noteq> 247))"

fun set_bit5 :: "bool \<Rightarrow> char \<Rightarrow> char" where
  "set_bit5 b (Char b0 b1 b2 b3 b4 b5 b6 b7) = Char b0 b1 b2 b3 b4 b b6 b7"

definition toLowerCase :: "string \<Rightarrow> string" where
  "toLowerCase s = map (\<lambda>c. if is_upper c then set_bit5 True c else c) s"

text \<open>
  \<open>toUpperCase\<close> sends U+00DF to the two letters SS. The upper-case partners of U+00B5 and
  U+00FF are U+039C and U+0178, which a \<^typ>\<open>char\<close> cannot hold: the model leaves these two
  code units as they are. Only the first line of the canonical request is upper-cased, and
  no statement below depends on what that line contains.
\<close>

definition toUpperCase :: "string \<Rightarrow> string" where
  "toUpperCase s = concat (map (\<lambda>c.
     if is_lower c then [set_bit5 False c]
     else if c = CHR 0xDF then ''SS''
     else [c]) s)"

text \<open>\<^verbatim>\<open>s.substr(start, len)\<close> for a start inside the string.\<close>

definition substr :: "string \<Rightarrow> nat \<Rightarrow> nat \<Rightarrow> string" where
  "substr s start len = take len (drop start s)"

text \<open>\<^verbatim>\<open>Array.prototype.join\<close>.\<close>

fun join :: "string \<Rightarrow> string list \<Rightarrow> string" where
  "join sep [] = []"
| "join sep [x] = x"
| "join sep (x # y # ys) = x @ sep @ join sep (y # ys)"

text \<open>\<^verbatim>\<open>Number.prototype.toString(16)\<close>: lower-case hexadecimal without padding.\<close>

fun toString16 :: "nat \<Rightarrow> string" where
  "toString16 n =
     (if n < 16 then [''0123456789abcdef'' ! n]
      else toString16 (n div 16) @ [''0123456789abcdef'' ! (n mod 16)])"

declare toString16.simps [simp del]

subsection \<open>Percent-encoding\<close>

text \<open>
  \<^verbatim>\<open>encodeURI\<close> and \<^verbatim>\<open>encodeURIComponent\<close> copy the code units of their unescaped set and
  replace every other one by the escapes \<^verbatim>\<open>%XX\<close> (upper-case hexadecimal) of its UTF-8
  bytes; a code unit in U+0080 .. U+00FF has two. A string is here a list of code units up
  to U+00FF, on which neither raises \<^verbatim>\<open>URIError\<close>: that needs a lone surrogate.
\<close>

definition is_alnum :: "char \<Rightarrow> bool" where
  "is_alnum c \<longleftrightarrow> (let n = of_char c :: nat in
     (48 \<le> n \<and> n \<le> 57) \<or> (65 \<le> n \<and> n \<le> 90) \<or> (97 \<le> n \<and> n \<le> 122))"

definition uriMark :: "char list" where
  "uriMark = [CHR ''-'', CHR ''_'', CHR ''.'', CHR ''!'', CHR ''~'', CHR ''*'', QUOTE,
              CHR ''('', CHR '')'']"

definition uriReserved :: "char list" where
  "uriReserved = [CHR '';'', CHR ''/'', CHR ''?'', CHR '':'', CHR ''@'', CHR ''&'', CHR ''='',
                  CHR ''+'', CHR ''$'', CHR '','']"

definition utf8 :: "nat \<Rightarrow> nat list" where
  "utf8 n = (if n < 128 then [n] else [192 + n div 64, 128 + n mod 64])"

definition escape_byte :: "nat \<Rightarrow> string" where
  "escape_byte b = [CHR ''%'', ''0123456789ABCDEF'' ! (b div 16), ''0123456789ABCDEF'' ! (b mod 16)]"

definition Encode :: "(char \<Rightarrow> bool) \<Rightarrow> string \<Rightarrow> string" where
  "Encode unescaped s =
     concat (map (\<lambda>c. if unescaped c then [c] else concat (map escape_byte (utf8 (of_char c)))) s)"

definition encodeURI :: "string \<Rightarrow> string" where
  "encodeURI = Encode (\<lambda>c. is_alnum c \<or> c \<in> set uriMark \<or> c \<in> set uriReserved \<or> c = CHR ''#'')"

definition encodeURIComponent :: "string \<Rightarrow> string" where
  "encodeURIComponent = Encode (\<lambda>c. is_alnum c \<or> c \<in> set uriMark)"

text \<open>
  \<^verbatim>\<open>utils.ts\<close>, \<open>fixedEncodeURIComponent\<close>: after \<^verbatim>\<open>encodeURIComponent\<close>, each of
  \<^verbatim>\<open>! ' ( ) *\<close> is replaced by \<^verbatim>\<open>%\<close> and its code in \<^verbatim>\<open>toString(16)\<close>.
\<close>

definition fixedEncodeURIComponent :: "string \<Rightarrow> string" where
  "fixedEncodeURIComponent str =
     concat (map (\<lambda>c.
       if c \<in> set [CHR ''!'', QUOTE, CHR ''('', CHR '')'', CHR ''*'']
       then CHR ''%'' # toString16 (of_char c) else [c]) (encodeURIComponent str))"

subsection \<open>Percent-encoding of any string\<close>













subsection \<open>Sorting with a comparison function\<close>

text \<open>
  \<^verbatim>\<open>Array.prototype.sort(cmp)\<close> puts \<open>a\<close> before \<open>b\<close> when \<open>cmp a b < 0\<close>. The model is a
  stable insertion sort. The two comparison functions of \<^verbatim>\<open>sigv4.ts\<close> never return 0 and
  compare the keys of one object, which are distinct; on them each is a strict total
  order, and every sorting algorithm returns the same list.
\<close>

fun insert_cmp :: "('a \<Rightarrow> 'a \<Rightarrow> int) \<Rightarrow> 'a \<Rightarrow> 'a list \<Rightarrow> 'a list" where
  "insert_cmp cmp x [] = [x]"
| "insert_cmp cmp x (y # ys) = (if cmp x y \<le> 0 then x # y # ys else y # insert_cmp cmp x ys)"

fun sort_cmp :: "('a \<Rightarrow> 'a \<Rightarrow> int) \<Rightarrow> 'a list \<Rightarrow> 'a list" where
  "sort_cmp cmp [] = []"
| "sort_cmp cmp (x # xs) = insert_cmp cmp x (sort_cmp cmp xs)"

section \<open>Objects, primitives and the environment\<close>

text \<open>
  \<open>Headers\<close> and \<open>QueryParams\<close> are objects with string keys and string values. An object
  is the list of its entries in the order of \<^verbatim>\<open>Object.keys\<close>, with distinct keys.
  Assigning to a key replaces the value in place, or appends the entry when the key is new
  (the keys this code assigns are not array indices, so they go last).
\<close>

type_synonym Headers = "(string \<times> string) list"
type_synonym QueryParams = "(string \<times> string) list"

fun obj_set :: "string \<Rightarrow> string \<Rightarrow> (string \<times> string) list \<Rightarrow> (string \<times> string) list" where
  "obj_set k v [] = [(k, v)]"
| "obj_set k v (e # es) = (if fst e = k then (k, v) # es else e # obj_set k v es)"

text \<open>
  A \<^verbatim>\<open>WordArray\<close> of crypto-js is the list of its significant bytes. Hex encoding writes
  two lower-case digits per byte.
\<close>

type_synonym WordArray = "8 word list"

datatype hmac_key = StrKey string | WordsKey WordArray

definition hex_byte :: "8 word \<Rightarrow> string" where
  "hex_byte b = [''0123456789abcdef'' ! (unat b div 16), ''0123456789abcdef'' ! (unat b mod 16)]"

definition hexEncode :: "WordArray \<Rightarrow> string" where
  "hexEncode wa = concat (map hex_byte wa)"

text \<open>
  What the code takes from outside the repository is a parameter: SHA-256 and HMAC-SHA256
  of crypto-js, \<^verbatim>\<open>url.parse\<close> and \<^verbatim>\<open>JSON.stringify\<close> (both may raise), and the clock, given
  as the result of \<^verbatim>\<open>new Date().toISOString()\<close>. The HMAC message is passed as it is
  received, since \<open>region\<close> may be \<^verbatim>\<open>null\<close>. The request body has some type \<open>'d\<close>.
\<close>

record url =
  url_hostname :: "string option"
  url_pathname :: "string option"

datatype 'd any = Nullish | Text string | Other 'd

record 'd env =
  SHA256 :: "string \<Rightarrow> WordArray"
  HmacSHA256 :: "jsval \<Rightarrow> hmac_key \<Rightarrow> WordArray"
  url_parse :: "string \<Rightarrow> error + url"
  JSON_stringify :: "'d any \<Rightarrow> error + string option"
  toISOString :: string

definition hash :: "'d env \<Rightarrow> string \<Rightarrow> WordArray" where
  "hash env val = SHA256 env val"

definition hmac :: "'d env \<Rightarrow> hmac_key \<Rightarrow> jsval \<Rightarrow> WordArray" where
  "hmac env key val = HmacSHA256 env val key"

section \<open>The canonical request\<close>

definition AWS_SHA_256 :: string where "AWS_SHA_256 = ''AWS4-HMAC-SHA256''"
definition AWS4_REQUEST :: string where "AWS4_REQUEST = ''aws4_request''"
definition AWS4 :: string where "AWS4 = ''AWS4''"
definition X_AMZ_DATE :: string where "X_AMZ_DATE = ''x-amz-date''"
definition X_AMZ_SECURITY_TOKEN :: string where "X_AMZ_SECURITY_TOKEN = ''x-amz-security-token''"
definition AUTHORIZATION :: string where "AUTHORIZATION = ''Authorization''"
definition HOST :: string where "HOST = ''Host''"

text \<open>\<open>path\<close> is \<^verbatim>\<open>u.pathname\<close> of a parsed URL, which is \<^verbatim>\<open>null\<close> for some inputs.\<close>

definition buildCanonicalUri :: "string option \<Rightarrow> string" where
  "buildCanonicalUri path =
     (let p = (case path of None \<Rightarrow> ''/'' | Some s \<Rightarrow> if s = [] then ''/'' else s)
      in encodeURI p)"


text \<open>
  \<^verbatim>\<open>Object.keys(o).map(name => ({name, value: o[name]}))\<close> is the list of the entries of
  \<open>o\<close>. Both sorts compare entries by name, and by value when the names are equal.
\<close>

definition compare_entries :: "string \<times> string \<Rightarrow> string \<times> string \<Rightarrow> int" where
  "compare_entries a b =
     (if fst a = fst b then (if snd a < snd b then - 1 else 1)
      else (if fst a < fst b then - 1 else 1))"

definition buildCanonicalQueryString :: "QueryParams \<Rightarrow> string" where
  "buildCanonicalQueryString queryParams =
     (if length (map fst queryParams) < 1 then []
      else
        let sorted = sort_cmp compare_entries queryParams;
            params = map (\<lambda>param. fst param @ ''='' @ fixedEncodeURIComponent (snd param)) sorted
        in join ''&'' params)"

text \<open>
  In \<open>buildCanonicalHeaders\<close> an entry carries the original name \<open>oName\<close>, the lower-cased
  name and the value; the sort looks at \<open>oName\<close> and the value only.
\<close>

definition buildCanonicalHeaders :: "Headers \<Rightarrow> string" where
  "buildCanonicalHeaders headers =
     (let canonicalHeaders =
            sort_cmp (\<lambda>a b. compare_entries (fst a, snd (snd a)) (fst b, snd (snd b)))
              (map (\<lambda>(name, v). (name, toLowerCase name, v)) headers)
      in foldl (\<lambda>prev curr.
            prev @ fst (snd curr) @ '':'' @ replace_spaces (trim (snd (snd curr))) @ [NL])
          [] canonicalHeaders)"

text \<open>The default \<^verbatim>\<open>sort()\<close> orders strings by \<^verbatim>\<open><\<close>.\<close>

definition buildCanonicalSignedHeaders :: "Headers \<Rightarrow> string" where
  "buildCanonicalSignedHeaders headers =
     join '';'' (sort (map (\<lambda>name. toLowerCase name) (map fst headers)))"

definition buildHashedPayload :: "'d env \<Rightarrow> string \<Rightarrow> string" where
  "buildHashedPayload env payload = toLowerCase (hexEncode (hash env payload))"

text \<open>
  \<open>queryParams\<close> and \<open>payload\<close> have default values, taken when the argument is
  \<^verbatim>\<open>undefined\<close>.
\<close>

definition buildCanonicalRequest ::
  "'d env \<Rightarrow> string \<Rightarrow> string option \<Rightarrow> Headers \<Rightarrow> QueryParams option \<Rightarrow> string option \<Rightarrow> string"
where
  "buildCanonicalRequest env method path headers queryParams payload =
     toUpperCase method @ [NL] @
     buildCanonicalUri path @ [NL] @
     buildCanonicalQueryString (case queryParams of None \<Rightarrow> [] | Some q \<Rightarrow> q) @ [NL] @
     buildCanonicalHeaders headers @ [NL] @
     buildCanonicalSignedHeaders headers @ [NL] @
     buildHashedPayload env (case payload of None \<Rightarrow> [] | Some p \<Rightarrow> p)"

section \<open>String to sign, signing key, signature, header\<close>

definition hashCanonicalRequest :: "'d env \<Rightarrow> string \<Rightarrow> string" where
  "hashCanonicalRequest env request = toLowerCase (hexEncode (hash env request))"

definition buildStringToSign :: "'d env \<Rightarrow> string \<Rightarrow> string \<Rightarrow> string \<Rightarrow> string" where
  "buildStringToSign env datetime credentialScope canonicalRequest =
     AWS_SHA_256 @ [NL] @
     datetime @ [NL] @
     credentialScope @ [NL] @
     hashCanonicalRequest env canonicalRequest"

definition buildCredentialScope :: "string \<Rightarrow> jsval \<Rightarrow> string \<Rightarrow> string" where
  "buildCredentialScope datetime region service =
     substr datetime 0 8 @ ''/'' @ ToString region @ ''/'' @ service @ ''/'' @ AWS4_REQUEST"

definition buildSigningKey :: "'d env \<Rightarrow> jsval \<Rightarrow> string \<Rightarrow> jsval \<Rightarrow> string \<Rightarrow> WordArray" where
  "buildSigningKey env secretKey datetime region service =
     (let kDate = hmac env (StrKey (AWS4 @ ToString secretKey)) (Str (substr datetime 0 8));
          kRegion = hmac env (WordsKey kDate) region;
          kService = hmac env (WordsKey kRegion) (Str service)
      in hmac env (WordsKey kService) (Str AWS4_REQUEST))"

definition buildSignature :: "'d env \<Rightarrow> WordArray \<Rightarrow> string \<Rightarrow> string" where
  "buildSignature env key stringToSign = hexEncode (hmac env (WordsKey key) (Str stringToSign))"

definition buildAuthorizationHeader :: "jsval \<Rightarrow> string \<Rightarrow> Headers \<Rightarrow> string \<Rightarrow> string" where
  "buildAuthorizationHeader accessKey credentialScope headers signature =
     AWS_SHA_256 @ '' Credential='' @ ToString accessKey @ ''/'' @ credentialScope @
     '', SignedHeaders='' @ buildCanonicalSignedHeaders headers @ '', Signature='' @ signature"

text \<open>\<^verbatim>\<open>url.parse\<close> raises a \<^verbatim>\<open>TypeError\<close> on an argument that is not a string.\<close>

definition hostname :: "'d env \<Rightarrow> jsval \<Rightarrow> error + string option" where
  "hostname env endpoint =
     (case endpoint of
        Str e \<Rightarrow> (case url_parse env e of Inl err \<Rightarrow> Inl err | Inr site \<Rightarrow> Inr (url_hostname site))
      | _ \<Rightarrow> Inl TypeError)"

definition getPath :: "'d env \<Rightarrow> jsval \<Rightarrow> jsval \<Rightarrow> error + string option" where
  "getPath env endpoint path =
     (case url_parse env (ToString endpoint @ ToString path) of
        Inl err \<Rightarrow> Inl err
      | Inr u \<Rightarrow> Inr (url_pathname u))"

section \<open>The orchestrator\<close>

text \<open>
  \<open>ISignRequestConfig\<close>. The six required fields are values that can be \<^verbatim>\<open>undefined\<close> or
  \<^verbatim>\<open>null\<close>; for the optional fields the code treats the two alike (\<^verbatim>\<open>== null\<close>), so they
  are options. \<open>data\<close> is any value; signing overwrites it with its serialisation.
\<close>

record 'd config =
  "method" :: jsval
  endpoint :: jsval
  path :: jsval
  headers :: "Headers option"
  params :: "QueryParams option"
  data :: "'d any"
  region :: jsval
  accessKey :: jsval
  secretKey :: jsval
  sessionToken :: "string option"
  serviceName :: "string option"

record 'd signing_parts =
  config :: "'d config"
  parts_headers :: Headers
  authHeader :: string
  signature :: string
  canonicalRequest :: string
  stringToSign :: string

text \<open>\<^verbatim>\<open>config[prop]\<close> for the property names that \<open>buildSigningParts\<close> asks for.\<close>

definition get_prop :: "'d config \<Rightarrow> string \<Rightarrow> jsval" where
  "get_prop c prop =
     (if prop = ''method'' then method c
      else if prop = ''path'' then path c
      else if prop = ''region'' then region c
      else if prop = ''endpoint'' then endpoint c
      else if prop = ''accessKey'' then accessKey c
      else if prop = ''secretKey'' then secretKey c
      else Undefined)"

text \<open>\<open>assertProps\<close> returns the value it throws, if it throws.\<close>

fun assertProps :: "'d config \<Rightarrow> string list \<Rightarrow> error option" where
  "assertProps c [] = None"
| "assertProps c (prop # props) =
     (if get_prop c prop = Undefined
      then Some (Thrown (''[SigV4]: missing config property '' @ [QUOTE] @ prop @ [QUOTE]))
      else assertProps c props)"

text \<open>\<open>assertValue\<close>, as the new value of the property.\<close>

definition assertValue :: "'a option \<Rightarrow> 'a \<Rightarrow> 'a option" where
  "assertValue cur val = (case cur of None \<Rightarrow> Some val | Some v \<Rightarrow> Some v)"

text \<open>
  The two replacements applied to \<^verbatim>\<open>toISOString()\<close>: \<^verbatim>\<open>/\.\d{3}Z$/\<close> by \<^verbatim>\<open>Z\<close> (one match, at
  the end), then every match of \<^verbatim>\<open>/[:\-]|\.\d{3}/g\<close> by the empty string, scanning from the
  left.
\<close>

definition is_digit :: "char \<Rightarrow> bool" where
  "is_digit c \<longleftrightarrow> (let n = of_char c :: nat in 48 \<le> n \<and> n \<le> 57)"

definition dot_digits :: "string \<Rightarrow> bool" where
  "dot_digits s \<longleftrightarrow> length s = 4 \<and> hd s = CHR ''.'' \<and> list_all is_digit (tl s)"

definition replace_millis :: "string \<Rightarrow> string" where
  "replace_millis s =
     (let n = length s
      in if 5 \<le> n \<and> dot_digits (take 4 (drop (n - 5) s)) \<and> drop (n - 1) s = ''Z''
         then take (n - 5) s @ ''Z'' else s)"

function remove_punctuation :: "string \<Rightarrow> string" where
  "remove_punctuation [] = []"
| "remove_punctuation (c # cs) =
     (if c = CHR '':'' \<or> c = CHR ''-'' then remove_punctuation cs
      else if dot_digits (take 4 (c # cs)) then remove_punctuation (drop 3 cs)
      else c # remove_punctuation cs)"
  by pat_completeness auto
termination
  by (relation "measure length") auto

definition format_date :: "string \<Rightarrow> string" where
  "format_date stamp = remove_punctuation (replace_millis stamp)"

text \<open>
  \<open>buildSigningParts\<close> returns its result, or the error it raised, together with the
  config object as the call leaves it: the caller owns that object and its header mapping,
  and sees what was written to them also when the call raises. The numbers are the lines
  of \<^verbatim>\<open>sigv4.ts\<close>.

  The date header is the first key that lower-cases to \<^verbatim>\<open>x-amz-date\<close>; the keys being
  distinct, the value read under that key is the value of that entry.

  A \<^verbatim>\<open>null\<close> host name (an endpoint without authority) is stored under \<open>Host\<close> at line 58
  and makes \<^verbatim>\<open>value.trim()\<close> raise at line 141; the string-valued header mapping here
  cannot show that entry, so on this one path the returned config lacks it.
\<close>

definition buildSigningParts ::
  "'d env \<Rightarrow> 'd config \<Rightarrow> (error + 'd signing_parts) \<times> 'd config"
where
  "buildSigningParts env config0 =
   (case assertProps config0
           [''method'', ''path'', ''region'', ''endpoint'', ''accessKey'', ''secretKey''] of
      Some err \<Rightarrow> (Inl err, config0)
    | None \<Rightarrow>
     (let config1 = config0\<lparr>headers := assertValue (headers config0) []\<rparr>;
          config2 = config1\<lparr>params := assertValue (params config1) []\<rparr>;
          config3 = config2\<lparr>serviceName := assertValue (serviceName config2) ''execute-api''\<rparr>;
          hs3 = (case headers config3 of None \<Rightarrow> [] | Some h \<Rightarrow> h);
          service = (case serviceName config3 of None \<Rightarrow> ''execute-api'' | Some s \<Rightarrow> s);
          passedDateHeader = find (\<lambda>entry. toLowerCase (fst entry) = X_AMZ_DATE) hs3;
          datetime = (case passedDateHeader of
                        Some entry \<Rightarrow> snd entry
                      | None \<Rightarrow> format_date (toISOString env));
          hs4 = (case passedDateHeader of
                   Some entry \<Rightarrow> hs3
                 | None \<Rightarrow> obj_set X_AMZ_DATE datetime hs3);
          config4 = config3\<lparr>headers := Some hs4\<rparr>
      in
      (case getPath env (endpoint config4) (path config4) of  \<comment> \<open>line 56\<close>
        Inl err \<Rightarrow> (Inl err, config4)
      | Inr path' \<Rightarrow>
      (case hostname env (endpoint config4) of  \<comment> \<open>line 58\<close>
        Inl err \<Rightarrow> (Inl err, config4)
      | Inr host \<Rightarrow>
      (let hs5 = (case host of None \<Rightarrow> hs4 | Some h \<Rightarrow> obj_set HOST h hs4);
           hs6 = (case sessionToken config4 of  \<comment> \<open>line 60\<close>
                    None \<Rightarrow> hs5
                  | Some token \<Rightarrow> obj_set X_AMZ_SECURITY_TOKEN token hs5);
           config6 = config4\<lparr>headers := Some hs6\<rparr>
       in
       (case (case data config6 of  \<comment> \<open>line 64\<close>
                Nullish \<Rightarrow> Inr (Some [])
              | d \<Rightarrow> JSON_stringify env d) of
         Inl err \<Rightarrow> (Inl err, config6)
       | Inr payload \<Rightarrow>
       (let config7 = config6\<lparr>data := (case payload of None \<Rightarrow> Nullish | Some p \<Rightarrow> Text p)\<rparr>
        in
        (case (method config7, host) of  \<comment> \<open>lines 67, 89 and 141\<close>
          (Str m, Some h) \<Rightarrow>
           (let canonicalRequest' =
                  buildCanonicalRequest env m path' hs6 (params config7) payload;
                credentialScope = buildCredentialScope datetime (region config7) service;
                stringToSign' = buildStringToSign env datetime credentialScope canonicalRequest';
                signingKey =
                  buildSigningKey env (secretKey config7) datetime (region config7) service;
                signature' = buildSignature env signingKey stringToSign';
                authHeader' =
                  buildAuthorizationHeader (accessKey config7) credentialScope hs6 signature';
                hs8 = obj_set AUTHORIZATION authHeader' hs6;
                config8 = config7\<lparr>headers := Some hs8\<rparr>
            in (Inr \<lparr>config = config8,
                     parts_headers = hs8,
                     authHeader = authHeader',
                     signature = signature',
                     canonicalRequest = canonicalRequest',
                     stringToSign = stringToSign'\<rparr>, config8))
        | _ \<Rightarrow> (Inl TypeError, config7)))))))))"

text \<open>The high-level entry point, which returns the header mapping alone.\<close>

definition sign :: "'d env \<Rightarrow> 'd config \<Rightarrow> (error + Headers) \<times> 'd config" where
  "sign env c =
     (case buildSigningParts env c of
        (Inl err, c') \<Rightarrow> (Inl err, c')
      | (Inr parts, c') \<Rightarrow> (Inr (parts_headers parts), c'))"

section \<open>Notions of the specification\<close>

text \<open>The definitions of this section are not code; the statements below are phrased with them.\<close>

definition required_props :: "string list" where
  "required_props = [''method'', ''path'', ''region'', ''endpoint'', ''accessKey'', ''secretKey'']"

text \<open>
  A config is valid for an environment when the call returns on it: no required field is
  \<^verbatim>\<open>undefined\<close>, \<open>method\<close> and \<open>endpoint\<close> are strings, \<^verbatim>\<open>url.parse\<close> accepts the endpoint
  (finding a host name) and the endpoint followed by the path, and \<^verbatim>\<open>JSON.stringify\<close>
  accepts the body.
\<close>

definition is_Str :: "jsval \<Rightarrow> bool" where
  "is_Str v = (case v of Str s \<Rightarrow> True | _ \<Rightarrow> False)"

definition has_host :: "error + url \<Rightarrow> bool" where
  "has_host r = (case r of Inl err \<Rightarrow> False | Inr u \<Rightarrow> url_hostname u \<noteq> None)"

definition valid_config :: "'d env \<Rightarrow> 'd config \<Rightarrow> bool" where
  "valid_config env c \<longleftrightarrow>
     is_Str (method c) \<and> is_Str (endpoint c) \<and>
     path c \<noteq> Undefined \<and> region c \<noteq> Undefined \<and>
     accessKey c \<noteq> Undefined \<and> secretKey c \<noteq> Undefined \<and>
     \<not> isl (url_parse env (ToString (endpoint c) @ ToString (path c))) \<and>
     has_host (url_parse env (ToString (endpoint c))) \<and>
     (data c = Nullish \<or> \<not> isl (JSON_stringify env (data c)))"

text \<open>The caller's headers, the date header among them, and the timestamp (section 4.1, steps 2 and 3).\<close>

definition passed_headers :: "'d config \<Rightarrow> Headers" where
  "passed_headers c = (case headers c of None \<Rightarrow> [] | Some h \<Rightarrow> h)"

definition has_header :: "string \<Rightarrow> Headers \<Rightarrow> bool" where
  "has_header lname hs \<longleftrightarrow> lname \<in> set (map (\<lambda>e. toLowerCase (fst e)) hs)"

definition timestamp_of :: "'d env \<Rightarrow> 'd config \<Rightarrow> string" where
  "timestamp_of env c =
     (case find (\<lambda>e. toLowerCase (fst e) = ''x-amz-date'') (passed_headers c) of
        Some e \<Rightarrow> snd e
      | None \<Rightarrow> format_date (toISOString env))"

definition service_of :: "'d config \<Rightarrow> string" where
  "service_of c = (case serviceName c of None \<Rightarrow> ''execute-api'' | Some s \<Rightarrow> s)"

definition host_of :: "'d env \<Rightarrow> 'd config \<Rightarrow> string" where
  "host_of env c =
     (case url_parse env (ToString (endpoint c)) of
        Inr u \<Rightarrow> (case url_hostname u of Some h \<Rightarrow> h | None \<Rightarrow> [])
      | Inl err \<Rightarrow> [])"

definition resolved_path :: "'d env \<Rightarrow> 'd config \<Rightarrow> string option" where
  "resolved_path env c =
     (case url_parse env (ToString (endpoint c) @ ToString (path c)) of
        Inr u \<Rightarrow> url_pathname u
      | Inl err \<Rightarrow> None)"

definition payload_of :: "'d env \<Rightarrow> 'd config \<Rightarrow> string" where
  "payload_of env c =
     (case data c of
        Nullish \<Rightarrow> []
      | d \<Rightarrow> (case JSON_stringify env d of Inr (Some p) \<Rightarrow> p | _ \<Rightarrow> []))"

text \<open>
  The header set that is signed (steps 3, 5 and 6): the caller's headers with the date
  header added unless one was passed, the host header set, and the security token header
  set when a session token was supplied. The authorization header is not yet in it.
\<close>

definition dated_headers :: "'d env \<Rightarrow> 'd config \<Rightarrow> Headers" where
  "dated_headers env c =
     (if has_header ''x-amz-date'' (passed_headers c) then passed_headers c
      else obj_set ''x-amz-date'' (timestamp_of env c) (passed_headers c))"

definition signed_header_set :: "'d env \<Rightarrow> 'd config \<Rightarrow> Headers" where
  "signed_header_set env c =
     (let with_host = obj_set ''Host'' (host_of env c) (dated_headers env c)
      in case sessionToken c of
           None \<Rightarrow> with_host
         | Some token \<Rightarrow> obj_set ''x-amz-security-token'' token with_host)"

text \<open>The signed-headers list of section 4.2, step 5.\<close>

definition signedHeadersList :: "Headers \<Rightarrow> string" where
  "signedHeadersList hs = join '';'' (sort (map toLowerCase (map fst hs)))"

text \<open>The key derivation of section 4.4, stage by stage; \<open>HMAC key message\<close>.\<close>

definition HMAC :: "'d env \<Rightarrow> hmac_key \<Rightarrow> string \<Rightarrow> WordArray" where
  "HMAC env key message = HmacSHA256 env (Str message) key"

definition kDate :: "'d env \<Rightarrow> string \<Rightarrow> string \<Rightarrow> WordArray" where
  "kDate env secret timestamp = HMAC env (StrKey (''AWS4'' @ secret)) (take 8 timestamp)"

definition kRegion :: "'d env \<Rightarrow> string \<Rightarrow> string \<Rightarrow> string \<Rightarrow> WordArray" where
  "kRegion env secret timestamp rgn = HMAC env (WordsKey (kDate env secret timestamp)) rgn"

definition kService :: "'d env \<Rightarrow> string \<Rightarrow> string \<Rightarrow> string \<Rightarrow> string \<Rightarrow> WordArray" where
  "kService env secret timestamp rgn service =
     HMAC env (WordsKey (kRegion env secret timestamp rgn)) service"

definition kSigning :: "'d env \<Rightarrow> string \<Rightarrow> string \<Rightarrow> string \<Rightarrow> string \<Rightarrow> WordArray" where
  "kSigning env secret timestamp rgn service =
     HMAC env (WordsKey (kService env secret timestamp rgn service)) ''aws4_request''"

text \<open>
  The words of a header value: its maximal runs of characters that are not white space.
  Trimming and collapsing a value is joining its words with single spaces.
\<close>

function value_words :: "string \<Rightarrow> string list" where
  "value_words s =
     (let s' = dropWhile is_space s
      in if s' = [] then []
         else takeWhile (\<lambda>c. \<not> is_space c) s' # value_words (dropWhile (\<lambda>c. \<not> is_space c) s'))"
  by pat_completeness auto
termination
proof (relation "measure length", simp)
  fix s s' :: string
  assume s': "s' = dropWhile is_space s" and ne: "s' \<noteq> []"
  from ne obtain c cs where cs: "s' = c # cs" by (cases s') auto
  have "\<not> is_space c" using s' cs by (metis dropWhile_eq_Cons_conv)
  hence "length (dropWhile (\<lambda>c. \<not> is_space c) s') \<le> length cs"
    by (simp add: cs length_dropWhile_le)
  also have "\<dots> < length s'" by (simp add: cs)
  also have "\<dots> \<le> length s" by (simp add: s' length_dropWhile_le)
  finally show "(dropWhile (\<lambda>c. \<not> is_space c) s', s) \<in> measure length" by simp
qed

declare value_words.simps [simp del]

definition canonical_header_line :: "string \<times> string \<Rightarrow> string" where
  "canonical_header_line e = toLowerCase (fst e) @ '':'' @ join '' '' (value_words (snd e)) @ [NL]"

definition query_segment :: "string \<times> string \<Rightarrow> string" where
  "query_segment e = fst e @ ''='' @ fixedEncodeURIComponent (snd e)"

text \<open>The lines of a text: \<^verbatim>\<open>s.split('\n')\<close>.\<close>

fun split_lines :: "string \<Rightarrow> string list" where
  "split_lines [] = [[]]"
| "split_lines (c # cs) =
     (if c = NL then [] # split_lines cs
      else (case split_lines cs of [] \<Rightarrow> [[c]] | l # ls \<Rightarrow> (c # l) # ls))"


definition uri_kept :: string where
  "uri_kept =
     '';/?:@&=+$,abcdefghijklmnopqrstuvwxyzABCDEFGHIJKLMNOPQRSTUVWXYZ0123456789-_.!~*'()#''"













text \<open>The text that \<open>assertProps\<close> throws for a property.\<close>

definition missing_message :: "string \<Rightarrow> string" where
  "missing_message prop = ''[SigV4]: missing config property '' @ [QUOTE] @ prop @ [QUOTE]"

text \<open>
  What a call that returns has computed, written with the functions of the pipeline
  (section 4.1, steps 7 to 10). \<open>buildSigningParts_valid\<close> below shows that the
  orchestrator returns exactly this on a valid config.
\<close>

definition passed_params :: "'d config \<Rightarrow> QueryParams" where
  "passed_params c = (case params c of None \<Rightarrow> [] | Some q \<Rightarrow> q)"

definition credential_scope :: "'d env \<Rightarrow> 'd config \<Rightarrow> string" where
  "credential_scope env c = buildCredentialScope (timestamp_of env c) (region c) (service_of c)"

definition expected_canonicalRequest :: "'d env \<Rightarrow> 'd config \<Rightarrow> string" where
  "expected_canonicalRequest env c =
     buildCanonicalRequest env (ToString (method c)) (resolved_path env c)
       (signed_header_set env c) (Some (passed_params c)) (Some (payload_of env c))"

definition expected_stringToSign :: "'d env \<Rightarrow> 'd config \<Rightarrow> string" where
  "expected_stringToSign env c =
     buildStringToSign env (timestamp_of env c) (credential_scope env c)
       (expected_canonicalRequest env c)"

definition expected_signature :: "'d env \<Rightarrow> 'd config \<Rightarrow> string" where
  "expected_signature env c =
     buildSignature env
       (buildSigningKey env (secretKey c) (timestamp_of env c) (region c) (service_of c))
       (expected_stringToSign env c)"

definition expected_authHeader :: "'d env \<Rightarrow> 'd config \<Rightarrow> string" where
  "expected_authHeader env c =
     buildAuthorizationHeader (accessKey c) (credential_scope env c)
       (signed_header_set env c) (expected_signature env c)"

definition final_headers :: "'d env \<Rightarrow> 'd config \<Rightarrow> Headers" where
  "final_headers env c =
     obj_set ''Authorization'' (expected_authHeader env c) (signed_header_set env c)"

definition serialized_data :: "'d env \<Rightarrow> 'd config \<Rightarrow> 'd any" where
  "serialized_data env c =
     (case data c of
        Nullish \<Rightarrow> Text []
      | d \<Rightarrow> (case JSON_stringify env d of Inr (Some p) \<Rightarrow> Text p | _ \<Rightarrow> Nullish))"

definition final_config :: "'d env \<Rightarrow> 'd config \<Rightarrow> 'd config" where
  "final_config env c =
     c\<lparr>headers := Some (final_headers env c),
       params := Some (passed_params c),
       serviceName := Some (service_of c),
       data := serialized_data env c\<rparr>"

definition expected_parts :: "'d env \<Rightarrow> 'd config \<Rightarrow> 'd signing_parts" where
  "expected_parts env c =
     \<lparr>config = final_config env c,
      parts_headers = final_headers env c,
      authHeader = expected_authHeader env c,
      signature = expected_signature env c,
      canonicalRequest = expected_canonicalRequest env c,
      stringToSign = expected_stringToSign env c\<rparr>"

text \<open>The order of the entries: by name, and by value when the names are equal.\<close>

definition entry_le :: "string \<times> string \<Rightarrow> string \<times> string \<Rightarrow> bool" where
  "entry_le a b \<longleftrightarrow> fst a < fst b \<or> (fst a = fst b \<and> snd a \<le> snd b)"

text \<open>Removing the white space at the end only; \<open>trim\<close> is this after removing it at the start.\<close>

definition trim_end :: "string \<Rightarrow> string" where
  "trim_end s = rev (dropWhile is_space (rev s))"

section \<open>A worked example\<close>

text \<open>
  The request \<^verbatim>\<open>get-vanilla\<close> of the AWS test suite, as the test of the repository builds it.
  The environment answers \<^verbatim>\<open>url.parse\<close> for the URLs of the example; its two digests are
  placeholders of two bytes, since the statements made on the example are about the text
  around the digests.
\<close>

definition example_url_parse :: "string \<Rightarrow> error + url" where
  "example_url_parse u =
     (if u = ''http://example.amazonaws.com/'' \<or> u = ''http://example.amazonaws.com''
      then Inr \<lparr>url_hostname = Some ''example.amazonaws.com'', url_pathname = Some ''/''\<rparr>
      else Inl (LibraryError ''ERR_INVALID_URL''))"

definition example_env :: "unit env" where
  "example_env =
     \<lparr>SHA256 = (\<lambda>s. [0xe3, 0xb0]),
      HmacSHA256 = (\<lambda>v k. [0x5d, 0x67]),
      url_parse = example_url_parse,
      JSON_stringify = (\<lambda>d. Inr None),
      toISOString = ''2015-08-30T12:36:00.000Z''\<rparr>"

definition example_config :: "unit config" where
  "example_config =
     \<lparr>method = Str ''GET'',
      endpoint = Str ''http://example.amazonaws.com'',
      path = Str ''/'',
      headers = Some [(''Host'', ''example.amazonaws.com''), (''X-Amz-Date'', ''20150830T123600Z'')],
      params = Some [],
      data = Nullish,
      region = Str ''us-east-1'',
      accessKey = Str ''AKIDEXAMPLE'',
      secretKey = Str ''wJalrXUtnFEMI/K7MDENG+bPxRfiCYEXAMPLEKEY'',
      sessionToken = None,
      serviceName = Some ''service''\<rparr>"

text \<open>The same request whose caller has put a security token among the headers.\<close>

definition example_config_token :: "unit config" where
  "example_config_token =
     example_config\<lparr>headers := Some [(''Host'', ''example.amazonaws.com''),
                                     (''X-Amz-Date'', ''20150830T123600Z''),
                                     (''X-Amz-Security-Token'', ''AQoDYXdzEPT'')]\<rparr>"

section \<open>Digests in hexadecimal\<close>

lemma hex_digit_mem: "n < 16 \<Longrightarrow> ''0123456789abcdef'' ! n \<in> set ''0123456789abcdef''"
  by (rule nth_mem) simp

lemma hex_digits_not_upper: "c \<in> set ''0123456789abcdef'' \<Longrightarrow> \<not> is_upper c"
  by (auto simp: is_upper_def)

lemma hex_digit_lower: "n < 16 \<Longrightarrow> \<not> is_upper (''0123456789abcdef'' ! n)"
  by (rule hex_digits_not_upper) (rule hex_digit_mem)

lemma unat_byte_div: "unat (b :: 8 word) div 16 < 16"
  using unsigned_less [of b, where ?'a = nat] by (simp add: less_mult_imp_div_less)

lemma toLowerCase_append: "toLowerCase (xs @ ys) = toLowerCase xs @ toLowerCase ys"
  by (simp add: toLowerCase_def)

lemma toLowerCase_hex_byte: "toLowerCase (hex_byte b) = hex_byte b"
  by (simp add: toLowerCase_def hex_byte_def hex_digit_lower unat_byte_div)

text \<open>The \<^verbatim>\<open>toLowerCase()\<close> applied to a hex-encoded digest changes nothing.\<close>

lemma toLowerCase_hexEncode: "toLowerCase (hexEncode w) = hexEncode w"
  unfolding hexEncode_def
  by (induction w) (simp_all add: toLowerCase_append toLowerCase_hex_byte, simp add: toLowerCase_def)

lemma set_hex_byte: "set (hex_byte b) \<subseteq> set ''0123456789abcdef''"
  unfolding hex_byte_def
  using hex_digit_mem [of "unat b div 16"] hex_digit_mem [of "unat b mod 16"]
  by (simp add: unat_byte_div)

lemma set_hexEncode: "set (hexEncode w) \<subseteq> set ''0123456789abcdef''"
  unfolding hexEncode_def using set_hex_byte by (induction w) auto

lemma length_hexEncode: "length (hexEncode w) = 2 * length w"
  unfolding hexEncode_def by (induction w) (simp_all add: hex_byte_def)

section \<open>Scope, string to sign and signing key\<close>

text \<open>
  C3. For every timestamp, region, service and canonical request, the credential scope is
  the first 8 characters of the timestamp, \<^verbatim>\<open>/\<close>, the region, \<^verbatim>\<open>/\<close>, the service and
  \<^verbatim>\<open>/aws4_request\<close>; the string to sign is \<^verbatim>\<open>AWS4-HMAC-SHA256\<close>, the timestamp, the
  credential scope and the hex SHA-256 digest of the canonical request, separated by
  newlines. The digest is written in lower-case hexadecimal digits, two per byte.
\<close>

theorem scope_and_string_to_sign:
  "buildCredentialScope timestamp (Str rgn) service =
     take 8 timestamp @ ''/'' @ rgn @ ''/'' @ service @ ''/aws4_request''
   \<and> buildStringToSign env timestamp credentialScope creq =
     ''AWS4-HMAC-SHA256'' @ [NL] @ timestamp @ [NL] @ credentialScope @ [NL] @
     hexEncode (SHA256 env creq)
   \<and> set (hexEncode (SHA256 env creq)) \<subseteq> set ''0123456789abcdef''
   \<and> length (hexEncode (SHA256 env creq)) = 2 * length (SHA256 env creq)"
  using set_hexEncode [of "SHA256 env creq"]
  by (simp add: buildCredentialScope_def buildStringToSign_def substr_def AWS4_REQUEST_def
      AWS_SHA_256_def hashCanonicalRequest_def hash_def toLowerCase_hexEncode length_hexEncode)

text \<open>
  C2. For every secret key, timestamp, region and service, \<open>buildSigningKey\<close> returns
  \<open>kSigning\<close> of the four-stage chain \<open>kDate\<close>, \<open>kRegion\<close>, \<open>kService\<close>, \<open>kSigning\<close>: the
  first stage is keyed with \<^verbatim>\<open>AWS4\<close> followed by the secret key and signs the first 8
  characters of the timestamp, and each later stage is keyed with the output of the one
  before and signs the region, the service and \<^verbatim>\<open>aws4_request\<close> in this order.
\<close>

theorem signing_key_chain:
  "buildSigningKey env (Str secret) timestamp (Str rgn) service =
     kSigning env secret timestamp rgn service
   \<and> WordsKey (buildSigningKey env (Str secret) timestamp (Str rgn) service) =
     foldl (\<lambda>key message. WordsKey (HMAC env key message)) (StrKey (''AWS4'' @ secret))
       [take 8 timestamp, rgn, service, ''aws4_request'']"
  by (simp add: buildSigningKey_def kSigning_def kService_def kRegion_def kDate_def HMAC_def
      hmac_def substr_def AWS4_def AWS4_REQUEST_def Let_def)

section \<open>The canonical URI\<close>







lemma encodeURI_append: "encodeURI (a @ b) = encodeURI a @ encodeURI b"
  by (simp add: encodeURI_def Encode_def)

lemma encodeURI_Nil: "encodeURI [] = []"
  by (simp add: encodeURI_def Encode_def)

lemma encodeURI_slash: "encodeURI (CHR ''/'' # b) = CHR ''/'' # encodeURI b"
  by (simp add: encodeURI_def Encode_def uriReserved_def)

subsection \<open>Any string: the loop over code units and the code points\<close>

lemma quote_kept: "QUOTE \<in> set uri_kept \<and> length uri_kept = 82"
  by (simp add: uri_kept_def)















subsection \<open>Agreement with the narrower model\<close>












subsection \<open>Reading the escapes back\<close>
















subsection \<open>Slashes and examples\<close>


















section \<open>The generated timestamp\<close>

text \<open>The two replacements turn the ISO form of a date into the compact form.\<close>

lemma format_date_example: "format_date ''2015-08-30T12:36:00.000Z'' = ''20150830T123600Z''"
  by (simp add: format_date_def replace_millis_def dot_digits_def is_digit_def)

section \<open>Validation\<close>

lemma assertProps_find:
  "assertProps c props =
     (case find (\<lambda>p. get_prop c p = Undefined) props of
        None \<Rightarrow> None
      | Some p \<Rightarrow> Some (Thrown (missing_message p)))"
  by (induction props) (simp_all add: missing_message_def)

lemma find_required:
  "find (\<lambda>p. get_prop c p = Undefined) required_props = None \<longleftrightarrow>
     method c \<noteq> Undefined \<and> path c \<noteq> Undefined \<and> region c \<noteq> Undefined \<and>
     endpoint c \<noteq> Undefined \<and> accessKey c \<noteq> Undefined \<and> secretKey c \<noteq> Undefined"
  by (simp add: required_props_def get_prop_def)

lemma buildSigningParts_throws:
  "assertProps c required_props = Some err \<Longrightarrow> buildSigningParts env c = (Inl err, c)"
  by (simp add: buildSigningParts_def required_props_def)

text \<open>
  C8. When at least one of the required fields \<open>method\<close>, \<open>path\<close>, \<open>region\<close>, \<open>endpoint\<close>,
  \<open>accessKey\<close>, \<open>secretKey\<close> is \<^verbatim>\<open>undefined\<close>, \<open>buildSigningParts\<close> (and \<open>sign\<close>) raises
  the missing-configuration error that names the first such field in this order, returns
  no result, and leaves the config, its header mapping included, as it was: no date, host,
  token or authorization header is added.
\<close>

theorem missing_field_rejected:
  assumes "method c = Undefined \<or> path c = Undefined \<or> region c = Undefined \<or>
           endpoint c = Undefined \<or> accessKey c = Undefined \<or> secretKey c = Undefined"
  shows "\<exists>prop. find (\<lambda>p. get_prop c p = Undefined) required_props = Some prop
           \<and> get_prop c prop = Undefined
           \<and> buildSigningParts env c = (Inl (Thrown (missing_message prop)), c)
           \<and> sign env c = (Inl (Thrown (missing_message prop)), c)"
proof -
  from assms have "find (\<lambda>p. get_prop c p = Undefined) required_props \<noteq> None"
    by (simp only: find_required) blast
  then obtain missing where f: "find (\<lambda>p. get_prop c p = Undefined) required_props = Some missing"
    by blast
  then have u: "get_prop c missing = Undefined"
    by (auto simp: find_Some_iff)
  from f have "assertProps c required_props = Some (Thrown (missing_message missing))"
    by (simp add: assertProps_find)
  then have b: "buildSigningParts env c = (Inl (Thrown (missing_message missing)), c)"
    by (rule buildSigningParts_throws)
  then have "sign env c = (Inl (Thrown (missing_message missing)), c)"
    by (simp add: sign_def)
  with f u b show ?thesis by blast
qed

theorem missing_field_rejected_witness:
  "secretKey (example_config\<lparr>secretKey := Undefined\<rparr>) = Undefined
   \<and> buildSigningParts example_env (example_config\<lparr>secretKey := Undefined\<rparr>) =
       (Inl (Thrown (''[SigV4]: missing config property '' @ [QUOTE] @ ''secretKey'' @ [QUOTE])),
        example_config\<lparr>secretKey := Undefined\<rparr>)
   \<and> headers (snd (buildSigningParts example_env (example_config\<lparr>secretKey := Undefined\<rparr>))) =
       Some [(''Host'', ''example.amazonaws.com''), (''X-Amz-Date'', ''20150830T123600Z'')]"
  using missing_field_rejected [of "example_config\<lparr>secretKey := Undefined\<rparr>" example_env]
  by (simp add: required_props_def get_prop_def example_config_def missing_message_def)

section \<open>The orchestrator on a valid config\<close>

lemma assertProps_required_None:
  "assertProps c [''method'', ''path'', ''region'', ''endpoint'', ''accessKey'', ''secretKey''] = None \<longleftrightarrow>
     method c \<noteq> Undefined \<and> path c \<noteq> Undefined \<and> region c \<noteq> Undefined \<and>
     endpoint c \<noteq> Undefined \<and> accessKey c \<noteq> Undefined \<and> secretKey c \<noteq> Undefined"
  by (simp add: get_prop_def)

lemma find_date_None:
  "find (\<lambda>entry. toLowerCase (fst entry) = ''x-amz-date'') hs = None \<longleftrightarrow> \<not> has_header ''x-amz-date'' hs"
  by (auto simp: find_None_iff has_header_def image_iff)

lemma assertValue_Some: "assertValue x d = Some (case x of None \<Rightarrow> d | Some v \<Rightarrow> v)"
  by (simp add: assertValue_def split: option.splits)

lemma canonicalRequest_payload:
  "buildCanonicalRequest env m pth hs q payload =
   buildCanonicalRequest env m pth hs q (Some (case payload of None \<Rightarrow> [] | Some p \<Rightarrow> p))"
  by (simp add: buildCanonicalRequest_def)

lemma buildSigningParts_valid:
  assumes v: "valid_config env c"
  shows "buildSigningParts env c = (Inr (expected_parts env c), final_config env c)"
proof -
  from v obtain m e where m: "method c = Str m" and e: "endpoint c = Str e"
    by (auto simp: valid_config_def is_Str_def split: jsval.splits)
  from v e obtain u1 where u1: "url_parse env (e @ ToString (path c)) = Inr u1"
    by (cases "url_parse env (e @ ToString (path c))") (auto simp: valid_config_def)
  from v e obtain u2 h where u2: "url_parse env e = Inr u2" and h: "url_hostname u2 = Some h"
    by (cases "url_parse env e") (auto simp: valid_config_def has_host_def)
  from v have a: "assertProps c [''method'', ''path'', ''region'', ''endpoint'', ''accessKey'', ''secretKey''] = None"
    unfolding assertProps_required_None using m e by (simp add: valid_config_def)
  have hs3: "assertValue (headers c) [] = Some (passed_headers c)"
    by (simp add: assertValue_Some passed_headers_def)
  have q3: "assertValue (params c) [] = Some (passed_params c)"
    by (simp add: assertValue_Some passed_params_def)
  have s3: "assertValue (serviceName c) ''execute-api'' = Some (service_of c)"
    by (simp add: assertValue_Some service_of_def)
  have dt: "(case find (\<lambda>entry. toLowerCase (fst entry) = X_AMZ_DATE) (passed_headers c) of
               Some entry \<Rightarrow> snd entry | None \<Rightarrow> format_date (toISOString env)) = timestamp_of env c"
    by (simp add: timestamp_of_def X_AMZ_DATE_def)
  have hs4: "(case find (\<lambda>entry. toLowerCase (fst entry) = X_AMZ_DATE) (passed_headers c) of
               None \<Rightarrow> obj_set X_AMZ_DATE (format_date (toISOString env)) (passed_headers c)
             | Some entry \<Rightarrow> passed_headers c) = dated_headers env c"
    using find_date_None [of "passed_headers c"]
    by (auto simp: dated_headers_def timestamp_of_def X_AMZ_DATE_def split: option.splits)
  have gp: "getPath env (Str e) (path c) = Inr (resolved_path env c)"
    by (simp add: getPath_def resolved_path_def e u1)
  have hn: "hostname env (Str e) = Inr (Some (host_of env c))"
    by (simp add: hostname_def host_of_def e u2 h)
  have hs6: "(case sessionToken c of
                None \<Rightarrow> obj_set HOST (host_of env c) (dated_headers env c)
              | Some token \<Rightarrow> obj_set X_AMZ_SECURITY_TOKEN token (obj_set HOST (host_of env c) (dated_headers env c)))
             = signed_header_set env c"
    by (simp add: signed_header_set_def HOST_def X_AMZ_SECURITY_TOKEN_def Let_def
        split: option.splits)
  from v obtain payload where
    pl: "(case data c of Nullish \<Rightarrow> Inr (Some []) | d \<Rightarrow> JSON_stringify env d) = Inr payload"
    by (cases "data c"; cases "JSON_stringify env (data c)") (auto simp: valid_config_def)
  have po: "(case payload of None \<Rightarrow> [] | Some p \<Rightarrow> p) = payload_of env c"
    using pl by (cases "data c"; cases payload) (auto simp: payload_of_def)
  have sd: "(case payload of None \<Rightarrow> Nullish | Some p \<Rightarrow> Text p) = serialized_data env c"
    using pl by (cases "data c"; cases payload) (auto simp: serialized_data_def)
  have cr: "buildCanonicalRequest env m (resolved_path env c) (signed_header_set env c)
              (Some (passed_params c)) payload = expected_canonicalRequest env c"
    by (subst canonicalRequest_payload) (simp add: expected_canonicalRequest_def po m)
  show ?thesis
    unfolding buildSigningParts_def a Let_def
    by (simp add: hs3 q3 s3 dt hs4 gp hn hs6 pl sd cr m e
        expected_parts_def final_config_def final_headers_def expected_authHeader_def
        expected_signature_def expected_stringToSign_def credential_scope_def AUTHORIZATION_def
        cong: option.case_cong)
qed

lemma getPath_Inr: "getPath env e p = Inr x \<Longrightarrow> \<not> isl (url_parse env (ToString e @ ToString p))"
  by (auto simp: getPath_def split: sum.splits)

lemma hostname_Inr: "hostname env e = Inr x \<Longrightarrow> is_Str e \<and> (x \<noteq> None \<longrightarrow> has_host (url_parse env (ToString e)))"
  by (auto simp: hostname_def is_Str_def has_host_def split: sum.splits jsval.splits)

lemma buildSigningParts_returns:
  assumes r: "fst (buildSigningParts env c) = Inr parts"
  shows "valid_config env c"
proof -
  have a: "assertProps c [''method'', ''path'', ''region'', ''endpoint'', ''accessKey'', ''secretKey''] = None"
    using r by (cases "assertProps c [''method'', ''path'', ''region'', ''endpoint'', ''accessKey'', ''secretKey'']")
      (auto simp: buildSigningParts_def)
  have req: "method c \<noteq> Undefined \<and> path c \<noteq> Undefined \<and> region c \<noteq> Undefined \<and>
     endpoint c \<noteq> Undefined \<and> accessKey c \<noteq> Undefined \<and> secretKey c \<noteq> Undefined"
    using a assertProps_required_None [of c] by blast
  obtain pth where gp: "getPath env (endpoint c) (path c) = Inr pth"
    using r unfolding buildSigningParts_def a Let_def
    by (cases "getPath env (endpoint c) (path c)") (auto)
  obtain host where hn: "hostname env (endpoint c) = Inr host"
    using r unfolding buildSigningParts_def a Let_def
    by (cases "hostname env (endpoint c)") (auto simp: gp)
  obtain payload where
    pl: "(case data c of Nullish \<Rightarrow> Inr (Some []) | d \<Rightarrow> JSON_stringify env d) = Inr payload"
    using r unfolding buildSigningParts_def a Let_def
    by (cases "case data c of Nullish \<Rightarrow> Inr (Some []) | d \<Rightarrow> JSON_stringify env d")
       (auto simp: gp hn)
  have mh: "is_Str (method c) \<and> host \<noteq> None"
    using r unfolding buildSigningParts_def a Let_def
    by (cases "method c"; cases host) (auto simp: gp hn pl is_Str_def)
  have d: "data c = Nullish \<or> \<not> isl (JSON_stringify env (data c))"
    using pl by (cases "data c") auto
  show ?thesis
    unfolding valid_config_def
    using req mh d getPath_Inr [OF gp] hostname_Inr [OF hn] by simp
qed

text \<open>The valid configs are exactly those on which the call returns.\<close>

lemma returns_iff_valid:
  "(\<exists>parts. fst (buildSigningParts env c) = Inr parts) \<longleftrightarrow> valid_config env c"
  using buildSigningParts_returns buildSigningParts_valid by (metis fst_conv)

section \<open>Null and empty required fields\<close>

lemma valid_example: "valid_config example_env example_config"
  by (simp add: valid_config_def example_env_def example_config_def is_Str_def has_host_def
      example_url_parse_def)

lemma secretKey_unused:
  "timestamp_of env (c\<lparr>secretKey := v\<rparr>) = timestamp_of env c"
  "service_of (c\<lparr>secretKey := v\<rparr>) = service_of c"
  "expected_stringToSign env (c\<lparr>secretKey := v\<rparr>) = expected_stringToSign env c"
  by (simp_all add: expected_stringToSign_def expected_canonicalRequest_def credential_scope_def
      timestamp_of_def passed_headers_def service_of_def resolved_path_def signed_header_set_def
      dated_headers_def host_of_def passed_params_def payload_of_def)

text \<open>
  C10. Validation rejects a required field only when it is \<^verbatim>\<open>undefined\<close>: it passes exactly
  when none of the six is. So when \<open>secretKey\<close> of a valid config is replaced by \<^verbatim>\<open>null\<close> or by
  the empty string, validation still passes and \<open>buildSigningParts\<close> returns a signing
  result; its signature is made with the key derived from \<^verbatim>\<open>AWS4\<close> followed by the string
  conversion of that value (\<^verbatim>\<open>AWS4null\<close>, or \<^verbatim>\<open>AWS4\<close> alone).
\<close>

theorem null_passes_validation:
  assumes v: "valid_config env c" and n: "sk = Null \<or> sk = Str []"
  shows "(assertProps c' required_props = None) =
         (method c' \<noteq> Undefined \<and> path c' \<noteq> Undefined \<and> region c' \<noteq> Undefined \<and>
          endpoint c' \<noteq> Undefined \<and> accessKey c' \<noteq> Undefined \<and> secretKey c' \<noteq> Undefined)
     \<and> assertProps (c\<lparr>secretKey := sk\<rparr>) required_props = None
     \<and> buildSigningParts env (c\<lparr>secretKey := sk\<rparr>) =
         (Inr (expected_parts env (c\<lparr>secretKey := sk\<rparr>)), final_config env (c\<lparr>secretKey := sk\<rparr>))
     \<and> signature (expected_parts env (c\<lparr>secretKey := sk\<rparr>)) =
         hexEncode (HmacSHA256 env (Str (expected_stringToSign env c))
           (WordsKey (buildSigningKey env (Str (ToString sk)) (timestamp_of env c) (region c) (service_of c))))"
proof -
  from n have u: "sk \<noteq> Undefined" by auto
  with v have v': "valid_config env (c\<lparr>secretKey := sk\<rparr>)"
    by (simp add: valid_config_def)
  then have a: "assertProps (c\<lparr>secretKey := sk\<rparr>) required_props = None"
    unfolding required_props_def assertProps_required_None
    by (auto simp: valid_config_def is_Str_def split: jsval.splits)
  have k: "buildSigningKey env sk ts rg sv = buildSigningKey env (Str (ToString sk)) ts rg sv" for ts rg sv
    by (simp add: buildSigningKey_def)
  have "signature (expected_parts env (c\<lparr>secretKey := sk\<rparr>)) =
         hexEncode (HmacSHA256 env (Str (expected_stringToSign env c))
           (WordsKey (buildSigningKey env (Str (ToString sk)) (timestamp_of env c) (region c) (service_of c))))"
    unfolding expected_parts_def
    by (simp add: expected_signature_def secretKey_unused buildSignature_def hmac_def
        k [of "timestamp_of env c"])
  with a buildSigningParts_valid [OF v'] assertProps_required_None [of c']
  show ?thesis by (simp add: required_props_def)
qed

theorem null_passes_validation_witness:
  "valid_config example_env example_config
   \<and> assertProps (example_config\<lparr>secretKey := Null\<rparr>) required_props = None
   \<and> fst (buildSigningParts example_env (example_config\<lparr>secretKey := Null\<rparr>)) =
       Inr (expected_parts example_env (example_config\<lparr>secretKey := Null\<rparr>))
   \<and> signature (expected_parts example_env (example_config\<lparr>secretKey := Null\<rparr>)) = ''5d67''"
proof -
  have sig: "hexEncode (HmacSHA256 example_env x k) = ''5d67''" for x k
    by (simp add: example_env_def hexEncode_def hex_byte_def)
  from null_passes_validation [OF valid_example, of Null example_config] valid_example
  show ?thesis by (simp add: sig)
qed

section \<open>Injected headers\<close>

lemma has_header_obj_set:
  "has_header n (obj_set k v hs) \<longleftrightarrow> toLowerCase k = n \<or> has_header n hs"
  by (induction hs) (auto simp: has_header_def)

lemma map_of_obj_set: "map_of (obj_set k v hs) = (map_of hs)(k \<mapsto> v)"
  by (induction hs) (auto simp: fun_eq_iff)

lemma keys_obj_set: "fst ` set (obj_set k v hs) = insert k (fst ` set hs)"
  by (induction hs) auto

lemma lower_names:
  "toLowerCase ''Host'' = ''host''"
  "toLowerCase ''Authorization'' = ''authorization''"
  "toLowerCase ''x-amz-date'' = ''x-amz-date''"
  "toLowerCase ''x-amz-security-token'' = ''x-amz-security-token''"
  by (simp_all add: toLowerCase_def is_upper_def)

lemma has_date_dated_headers: "has_header ''x-amz-date'' (dated_headers env c)"
  by (simp add: dated_headers_def has_header_obj_set lower_names)

text \<open>
  C9, amended. On a valid config \<open>buildSigningParts\<close> returns, and the header mapping it
  leaves contains a date header, \<open>Host\<close> with the host name of the endpoint and
  \<open>Authorization\<close> with the returned authorization value. When \<open>sessionToken\<close> was supplied
  the mapping holds it under \<^verbatim>\<open>x-amz-security-token\<close>; when it was not, the mapping contains
  a security-token header exactly when the caller's headers did. The keys of the mapping are
  the caller's keys, \<open>Host\<close>, \<open>Authorization\<close>, \<^verbatim>\<open>x-amz-date\<close> unless a date header was
  passed, and \<^verbatim>\<open>x-amz-security-token\<close> when a session token was supplied.
\<close>

theorem header_injection:
  assumes v: "valid_config env c"
  shows "fst (buildSigningParts env c) = Inr (expected_parts env c)
     \<and> headers (snd (buildSigningParts env c)) = Some (final_headers env c)
     \<and> parts_headers (expected_parts env c) = final_headers env c
     \<and> has_header ''x-amz-date'' (final_headers env c)
     \<and> map_of (final_headers env c) ''Host'' = Some (host_of env c)
     \<and> map_of (final_headers env c) ''Authorization'' = Some (expected_authHeader env c)
     \<and> (case sessionToken c of
          Some token \<Rightarrow> map_of (final_headers env c) ''x-amz-security-token'' = Some token
        | None \<Rightarrow> has_header ''x-amz-security-token'' (final_headers env c) =
                  has_header ''x-amz-security-token'' (passed_headers c))
     \<and> fst ` set (final_headers env c) =
         fst ` set (passed_headers c) \<union> {''Host'', ''Authorization''}
         \<union> (if has_header ''x-amz-date'' (passed_headers c) then {} else {''x-amz-date''})
         \<union> (if sessionToken c = None then {} else {''x-amz-security-token''})"
proof -
  note b = buildSigningParts_valid [OF v]
  have 1: "has_header ''x-amz-date'' (final_headers env c)"
    by (simp add: final_headers_def signed_header_set_def has_header_obj_set
        has_date_dated_headers Let_def split: option.splits)
  have 2: "map_of (final_headers env c) ''Host'' = Some (host_of env c)"
    by (simp add: final_headers_def signed_header_set_def map_of_obj_set Let_def
        split: option.splits)
  have 3: "map_of (final_headers env c) ''Authorization'' = Some (expected_authHeader env c)"
    by (simp add: final_headers_def map_of_obj_set)
  have 4: "(case sessionToken c of
          Some token \<Rightarrow> map_of (final_headers env c) ''x-amz-security-token'' = Some token
        | None \<Rightarrow> has_header ''x-amz-security-token'' (final_headers env c) =
                  has_header ''x-amz-security-token'' (passed_headers c))"
    by (simp add: final_headers_def signed_header_set_def map_of_obj_set has_header_obj_set
        dated_headers_def lower_names Let_def split: option.splits)
  have 5: "fst ` set (final_headers env c) =
         fst ` set (passed_headers c) \<union> {''Host'', ''Authorization''}
         \<union> (if has_header ''x-amz-date'' (passed_headers c) then {} else {''x-amz-date''})
         \<union> (if sessionToken c = None then {} else {''x-amz-security-token''})"
    by (auto simp: final_headers_def signed_header_set_def keys_obj_set
        dated_headers_def Let_def split: option.splits)
  from b 1 2 3 4 5 show ?thesis
    by (simp add: expected_parts_def final_config_def)
qed

lemma valid_example_token: "valid_config example_env example_config_token"
  by (simp add: valid_config_def example_env_def example_config_def example_config_token_def
      is_Str_def has_host_def example_url_parse_def)

text \<open>
  C9 as stated fails: a caller's own security-token header stays in the mapping although no
  \<open>sessionToken\<close> was supplied.
\<close>

theorem security_token_counterexample:
  "\<not> isl (fst (buildSigningParts example_env example_config_token))
   \<and> \<not> (has_header ''x-amz-security-token''
           (passed_headers (snd (buildSigningParts example_env example_config_token)))
         \<longleftrightarrow> sessionToken example_config_token \<noteq> None)"
proof -
  have "has_header ''x-amz-security-token'' (passed_headers example_config_token)"
    by (simp add: has_header_def passed_headers_def example_config_token_def
        toLowerCase_def is_upper_def)
  then have "has_header ''x-amz-security-token'' (final_headers example_env example_config_token)"
    by (simp add: final_headers_def signed_header_set_def has_header_obj_set dated_headers_def
        Let_def split: option.splits)
  moreover have "sessionToken example_config_token = None"
    by (simp add: example_config_token_def example_config_def)
  ultimately show ?thesis
    by (simp add: buildSigningParts_valid [OF valid_example_token] final_config_def
        passed_headers_def)
qed

theorem header_injection_witness:
  "valid_config example_env example_config_token
   \<and> map_of (final_headers example_env example_config_token) ''Host'' = Some ''example.amazonaws.com''
   \<and> has_header ''x-amz-date'' (final_headers example_env example_config_token)
   \<and> has_header ''x-amz-security-token'' (final_headers example_env example_config_token)"
proof -
  have "host_of example_env example_config_token = ''example.amazonaws.com''"
    by (simp add: host_of_def example_env_def example_config_token_def example_config_def
        example_url_parse_def)
  moreover have "sessionToken example_config_token = None"
    by (simp add: example_config_token_def example_config_def)
  moreover have "has_header ''x-amz-security-token'' (passed_headers example_config_token)"
    by (simp add: has_header_def passed_headers_def example_config_token_def
        toLowerCase_def is_upper_def)
  ultimately show ?thesis
    using header_injection [OF valid_example_token] valid_example_token by simp
qed

section \<open>The authorization header\<close>

lemma split_lines_nonempty: "split_lines s \<noteq> []"
  by (induction s) (auto split: list.splits)

lemma split_lines_append: "split_lines (xs @ NL # ys) = split_lines xs @ split_lines ys"
proof (induction xs)
  case Nil
  show ?case by simp
next
  case (Cons c xs)
  obtain l ls where l: "split_lines xs = l # ls"
    using split_lines_nonempty [of xs] by (cases "split_lines xs") auto
  with Cons show ?case by simp
qed

lemma split_lines_single: "NL \<notin> set s \<Longrightarrow> split_lines s = [s]"
  by (induction s) auto

lemma NL_not_hex: "NL \<notin> set (hexEncode w)"
  using set_hexEncode [of w] by auto

lemma penultimate_line:
  assumes "NL \<notin> set s"
  shows "rev (split_lines (a @ [NL] @ s @ [NL] @ hexEncode w)) ! 1 = s"
proof -
  have "split_lines (a @ [NL] @ s @ [NL] @ hexEncode w) = split_lines a @ [s] @ [hexEncode w]"
    using split_lines_append [of a "s @ NL # hexEncode w"] split_lines_append [of s "hexEncode w"]
      split_lines_single [OF assms] split_lines_single [OF NL_not_hex, of w]
    by simp
  then show ?thesis by simp
qed

lemma signedHeadersList_eq: "buildCanonicalSignedHeaders hs = signedHeadersList hs"
  by (simp add: buildCanonicalSignedHeaders_def signedHeadersList_def)

lemma expected_canonicalRequest_eq:
  "expected_canonicalRequest env c =
     (toUpperCase (ToString (method c)) @ [NL] @
      buildCanonicalUri (resolved_path env c) @ [NL] @
      buildCanonicalQueryString (passed_params c) @ [NL] @
      buildCanonicalHeaders (signed_header_set env c)) @ [NL] @
      signedHeadersList (signed_header_set env c) @ [NL] @
      hexEncode (SHA256 env (payload_of env c))"
  by (simp add: expected_canonicalRequest_def buildCanonicalRequest_def signedHeadersList_eq
      buildHashedPayload_def toLowerCase_hexEncode hash_def)

text \<open>
  C1, amended. On a valid config the returned \<open>authHeader\<close> is \<^verbatim>\<open>AWS4-HMAC-SHA256 Credential=\<close>,
  the access key, \<^verbatim>\<open>/\<close>, the credential scope, \<^verbatim>\<open>, SignedHeaders=\<close>, the signed-headers
  list, \<^verbatim>\<open>, Signature=\<close> and the signature. The signed-headers list is computed from the
  header set as it stands after the date, host and security-token headers are in and before
  \<open>Authorization\<close> is added, and it is the same string as the signed-headers component of
  the canonical request: the fifth of its six components joined by newlines. That
  component is followed only by a newline and the payload digest, so it is the last line
  but one whenever no header name contains a newline; it is not the fifth line, because the
  canonical-headers component before it has one line per header and ends in a newline.
\<close>

theorem authorization_header:
  assumes v: "valid_config env c"
  shows "fst (buildSigningParts env c) = Inr (expected_parts env c)
     \<and> authHeader (expected_parts env c) =
         ''AWS4-HMAC-SHA256 Credential='' @ ToString (accessKey c) @ ''/'' @
         credential_scope env c @ '', SignedHeaders='' @
         signedHeadersList (signed_header_set env c) @ '', Signature='' @
         signature (expected_parts env c)
     \<and> credential_scope env c =
         take 8 (timestamp_of env c) @ ''/'' @ ToString (region c) @ ''/'' @ service_of c @
         ''/aws4_request''
     \<and> canonicalRequest (expected_parts env c) =
         toUpperCase (ToString (method c)) @ [NL] @
         buildCanonicalUri (resolved_path env c) @ [NL] @
         buildCanonicalQueryString (passed_params c) @ [NL] @
         buildCanonicalHeaders (signed_header_set env c) @ [NL] @
         signedHeadersList (signed_header_set env c) @ [NL] @
         hexEncode (SHA256 env (payload_of env c))
     \<and> parts_headers (expected_parts env c) =
         obj_set ''Authorization'' (authHeader (expected_parts env c)) (signed_header_set env c)
     \<and> (NL \<notin> set (signedHeadersList (signed_header_set env c)) \<longrightarrow>
          rev (split_lines (canonicalRequest (expected_parts env c))) ! 1 =
          signedHeadersList (signed_header_set env c))"
proof -
  have 1: "authHeader (expected_parts env c) =
         ''AWS4-HMAC-SHA256 Credential='' @ ToString (accessKey c) @ ''/'' @
         credential_scope env c @ '', SignedHeaders='' @
         signedHeadersList (signed_header_set env c) @ '', Signature='' @
         signature (expected_parts env c)"
    by (simp add: expected_parts_def expected_authHeader_def buildAuthorizationHeader_def
        AWS_SHA_256_def signedHeadersList_eq)
  have 2: "credential_scope env c =
         take 8 (timestamp_of env c) @ ''/'' @ ToString (region c) @ ''/'' @ service_of c @
         ''/aws4_request''"
    by (simp add: credential_scope_def buildCredentialScope_def substr_def AWS4_REQUEST_def)
  have 3: "canonicalRequest (expected_parts env c) = expected_canonicalRequest env c"
    by (simp add: expected_parts_def)
  have 4: "parts_headers (expected_parts env c) =
         obj_set ''Authorization'' (authHeader (expected_parts env c)) (signed_header_set env c)"
    by (simp add: expected_parts_def final_headers_def)
  have 5: "NL \<notin> set (signedHeadersList (signed_header_set env c)) \<longrightarrow>
          rev (split_lines (canonicalRequest (expected_parts env c))) ! 1 =
          signedHeadersList (signed_header_set env c)"
  proof
    assume n: "NL \<notin> set (signedHeadersList (signed_header_set env c))"
    from penultimate_line [OF n, of "toUpperCase (ToString (method c)) @ [NL] @
      buildCanonicalUri (resolved_path env c) @ [NL] @
      buildCanonicalQueryString (passed_params c) @ [NL] @
      buildCanonicalHeaders (signed_header_set env c)" "SHA256 env (payload_of env c)"]
    show "rev (split_lines (canonicalRequest (expected_parts env c))) ! 1 =
          signedHeadersList (signed_header_set env c)"
      unfolding 3 expected_canonicalRequest_eq by simp
  qed
  from buildSigningParts_valid [OF v] 1 2 3 4 5 show ?thesis
    by (simp add: expected_canonicalRequest_eq)
qed

lemma example_signed_header_set:
  "signed_header_set example_env example_config =
     [(''Host'', ''example.amazonaws.com''), (''X-Amz-Date'', ''20150830T123600Z'')]"
  by (simp add: signed_header_set_def dated_headers_def has_header_def passed_headers_def
      host_of_def example_env_def example_config_def example_url_parse_def toLowerCase_def
      is_upper_def)

lemma example_signedHeadersList:
  "signedHeadersList (signed_header_set example_env example_config) = ''host;x-amz-date''"
  unfolding example_signed_header_set
  by (simp add: signedHeadersList_def toLowerCase_def is_upper_def)

lemma example_canonicalRequest:
  "expected_canonicalRequest example_env example_config =
     ''GET'' @ [NL] @ ''/'' @ [NL] @ [NL] @ ''host:example.amazonaws.com'' @ [NL] @
     ''x-amz-date:20150830T123600Z'' @ [NL] @ [NL] @ ''host;x-amz-date'' @ [NL] @ ''e3b0''"
  unfolding expected_canonicalRequest_eq example_signedHeadersList
  unfolding example_signed_header_set
  by (simp add: example_env_def example_config_def toUpperCase_def is_lower_def
      buildCanonicalUri_def encodeURI_slash encodeURI_Nil resolved_path_def example_url_parse_def
      passed_params_def buildCanonicalQueryString_def buildCanonicalHeaders_def compare_entries_def
      toLowerCase_def is_upper_def trim_def is_space_def payload_of_def hexEncode_def hex_byte_def)

lemma example_authHeader:
  "expected_authHeader example_env example_config =
     ''AWS4-HMAC-SHA256 Credential=AKIDEXAMPLE/20150830/us-east-1/service/aws4_request, SignedHeaders=host;x-amz-date, Signature=5d67''"
proof -
  have "timestamp_of example_env example_config = ''20150830T123600Z''"
    by (simp add: timestamp_of_def passed_headers_def example_config_def toLowerCase_def
        is_upper_def)
  then have "credential_scope example_env example_config = ''20150830/us-east-1/service/aws4_request''"
    by (simp add: credential_scope_def buildCredentialScope_def substr_def AWS4_REQUEST_def
        service_of_def example_config_def)
  moreover have "expected_signature example_env example_config = ''5d67''"
    by (simp add: expected_signature_def buildSignature_def hmac_def example_env_def
        hexEncode_def hex_byte_def)
  moreover have "accessKey example_config = Str ''AKIDEXAMPLE''"
    by (simp add: example_config_def)
  ultimately show ?thesis
    by (simp add: expected_authHeader_def buildAuthorizationHeader_def AWS_SHA_256_def
        signedHeadersList_eq example_signedHeadersList)
qed

text \<open>
  C1 as stated fails: in the example the fifth line of the canonical request is the
  canonical header line of the date, not the signed-headers list of the authorization
  header.
\<close>

theorem fifth_line_counterexample:
  "\<not> isl (fst (buildSigningParts example_env example_config))
   \<and> split_lines (canonicalRequest (projr (fst (buildSigningParts example_env example_config)))) ! 4
       \<noteq> signedHeadersList (signed_header_set example_env example_config)
   \<and> split_lines (canonicalRequest (projr (fst (buildSigningParts example_env example_config)))) ! 4
       = ''x-amz-date:20150830T123600Z''
   \<and> authHeader (projr (fst (buildSigningParts example_env example_config))) =
       ''AWS4-HMAC-SHA256 Credential=AKIDEXAMPLE/20150830/us-east-1/service/aws4_request, SignedHeaders=host;x-amz-date, Signature=5d67''"
  by (simp add: buildSigningParts_valid [OF valid_example] expected_parts_def
      example_canonicalRequest example_authHeader example_signedHeadersList)

theorem authorization_header_witness:
  "valid_config example_env example_config
   \<and> authHeader (expected_parts example_env example_config) =
       ''AWS4-HMAC-SHA256 Credential=AKIDEXAMPLE/20150830/us-east-1/service/aws4_request, SignedHeaders=host;x-amz-date, Signature=5d67''
   \<and> NL \<notin> set (signedHeadersList (signed_header_set example_env example_config))
   \<and> rev (split_lines (canonicalRequest (expected_parts example_env example_config))) ! 1 =
       ''host;x-amz-date''"
proof -
  have n: "NL \<notin> set (signedHeadersList (signed_header_set example_env example_config))"
    by (simp add: example_signedHeadersList)
  have a: "authHeader (expected_parts example_env example_config) =
             expected_authHeader example_env example_config"
    by (simp add: expected_parts_def)
  from authorization_header [OF valid_example] n
  have p: "rev (split_lines (canonicalRequest (expected_parts example_env example_config))) ! 1 =
           signedHeadersList (signed_header_set example_env example_config)"
    by blast
  show ?thesis
    using valid_example n
    by (simp only: p a example_authHeader example_signedHeadersList simp_thms)
qed

section \<open>The canonical query string\<close>

text \<open>
  The comparison function is negative exactly on the strict lexicographic order of the
  pairs, so the sort with it is the sort of that order.
\<close>

lemma compare_entries_neg: "compare_entries a b \<le> 0 \<longleftrightarrow> a < b"
  by (cases a; cases b) (auto simp: compare_entries_def)

lemma set_insert_cmp: "set (insert_cmp cmp x ys) = insert x (set ys)"
  by (induction ys) auto

lemma mset_insert_cmp: "mset (insert_cmp cmp x ys) = add_mset x (mset ys)"
  by (induction ys) auto

lemma mset_sort_cmp: "mset (sort_cmp cmp xs) = mset xs"
  by (induction xs) (simp_all add: mset_insert_cmp)

lemma sorted_insert_cmp:
  "sorted ys \<Longrightarrow> sorted (insert_cmp compare_entries x ys)"
proof (induction ys)
  case Nil
  show ?case by simp
next
  case (Cons y ys)
  show ?case
  proof (cases "x < y")
    case True
    then have "x \<le> y" by (rule less_imp_le)
    with True Cons.prems show ?thesis
      by (simp only: insert_cmp.simps compare_entries_neg if_True sorted2)
  next
    case False
    then have "y \<le> x" by (rule leI)
    with False Cons show ?thesis
      by (simp only: insert_cmp.simps compare_entries_neg if_False sorted_simps set_insert_cmp)
         auto
  qed
qed

lemma sorted_sort_cmp: "sorted (sort_cmp compare_entries xs)"
  by (induction xs) (simp_all add: sorted_insert_cmp)

lemma sort_cmp_eq_sort: "sort_cmp compare_entries xs = sort xs"
  by (rule properties_for_sort [symmetric]) (simp_all add: mset_sort_cmp sorted_sort_cmp)

lemma entry_le_iff: "entry_le a b \<longleftrightarrow> a \<le> b"
  by (cases a; cases b) (auto simp: entry_le_def)

lemma sorted_wrt_entry_le: "sorted_wrt entry_le (sort xs)"
proof -
  have "sorted_wrt (\<le>) (sort xs)" by simp
  then show ?thesis by (rule sorted_wrt_mono_rel [rotated]) (simp add: entry_le_iff)
qed

lemma sorted_wrt_names:
  "sorted_wrt entry_le xs \<Longrightarrow> distinct (map fst xs) \<Longrightarrow> sorted_wrt (\<lambda>a b. fst a < fst b) xs"
  by (induction xs) (auto simp: entry_le_def)

lemma distinct_names_sort: "distinct (map fst (sort xs)) = distinct (map fst xs)"
proof -
  have "mset (map fst (sort xs)) = mset (map fst xs)" by simp
  then show ?thesis by (rule mset_eq_imp_distinct_iff)
qed

lemma buildCanonicalQueryString_eq:
  "buildCanonicalQueryString ps = join ''&'' (map query_segment (sort ps))"
  by (simp add: buildCanonicalQueryString_def sort_cmp_eq_sort Let_def
      query_segment_def [abs_def] del: sort_cmp.simps)

lemma example_query: "buildCanonicalQueryString [(''a'', ''1''), (''A'', ''2'')] = ''A=2&a=1''"
  by (simp add: buildCanonicalQueryString_def compare_entries_def fixedEncodeURIComponent_def
      encodeURIComponent_def Encode_def is_alnum_def uriMark_def)

text \<open>
  C5. For every params mapping the canonical query string is the segments of the entries,
  joined with \<^verbatim>\<open>&\<close>, the entries sorted ascending by raw name under \<^verbatim>\<open><\<close> and by raw value
  when the names are equal (by name strictly, the names of an object being distinct).
  For the params \<^verbatim>\<open>{"a": "1", "A": "2"}\<close> it is \<^verbatim>\<open>A=2&a=1\<close>.
\<close>

theorem canonical_query_order:
  "buildCanonicalQueryString ps = join ''&'' (map query_segment (sort ps))
   \<and> mset (sort ps) = mset ps
   \<and> sorted_wrt entry_le (sort ps)
   \<and> (distinct (map fst ps) \<longrightarrow> sorted_wrt (\<lambda>a b. fst a < fst b) (sort ps))
   \<and> buildCanonicalQueryString [(''a'', ''1''), (''A'', ''2'')] = ''A=2&a=1''"
  using sorted_wrt_names [OF sorted_wrt_entry_le, of ps]
  by (simp add: buildCanonicalQueryString_eq [of ps] sorted_wrt_entry_le distinct_names_sort
      example_query)

theorem canonical_query_order_witness:
  "distinct (map fst [(''b'', ''2''), (''a'', ''1''), (''A'', ''3'')])
   \<and> sorted_wrt (\<lambda>a b. fst a < fst b) (sort [(''b'', ''2''), (''a'', ''1''), (''A'', ''3'')])
   \<and> sort [(''b'', ''2''), (''a'', ''1''), (''A'', ''3'')] = [(''A'', ''3''), (''a'', ''1''), (''b'', ''2'')]
   \<and> buildCanonicalQueryString [(''b'', ''2''), (''a'', ''1''), (''A'', ''3'')] = ''A=3&a=1&b=2''"
proof -
  have d: "distinct (map fst [(''b'', ''2''), (''a'', ''1''), (''A'', ''3'')])"
    by simp
  have s: "sort [(''b'', ''2''), (''a'', ''1''), (''A'', ''3'')] = [(''A'', ''3''), (''a'', ''1''), (''b'', ''2'')]"
    by simp
  note t = canonical_query_order [of "[(''b'', ''2''), (''a'', ''1''), (''A'', ''3'')]"]
  from t d have o: "sorted_wrt (\<lambda>a b. fst a < fst b) (sort [(''b'', ''2''), (''a'', ''1''), (''A'', ''3'')])"
    by blast
  from t have "buildCanonicalQueryString [(''b'', ''2''), (''a'', ''1''), (''A'', ''3'')] =
        join ''&'' (map query_segment (sort [(''b'', ''2''), (''a'', ''1''), (''A'', ''3'')]))"
    by blast
  then have q: "buildCanonicalQueryString [(''b'', ''2''), (''a'', ''1''), (''A'', ''3'')] = ''A=3&a=1&b=2''"
    unfolding s
    by (simp add: query_segment_def fixedEncodeURIComponent_def
      encodeURIComponent_def Encode_def is_alnum_def uriMark_def)
  from d o s q show ?thesis by blast
qed

section \<open>The canonical headers\<close>

lemma trim_eq: "trim s = trim_end (dropWhile is_space s)"
  by (simp add: trim_def trim_end_def)

lemma trim_end_append:
  "trim_end (w @ t) = (if \<forall>x\<in>set t. is_space x then trim_end w else w @ trim_end t)"
  by (simp add: trim_end_def dropWhile_append)

lemma trim_end_word: "\<forall>c\<in>set w. \<not> is_space c \<Longrightarrow> trim_end w = w"
  by (cases "rev w") (auto simp: trim_end_def dest: arg_cong [where f = set])

lemma trim_end_Cons: "\<not> is_space c \<Longrightarrow> trim_end (c # cs) = c # trim_end cs"
  using trim_end_append [of "[c]" cs] trim_end_word [of "[c]"]
  by (auto simp: trim_end_def)

lemma replace_spaces_word:
  "\<forall>c\<in>set w. \<not> is_space c \<Longrightarrow> replace_spaces (w @ t) = w @ replace_spaces t"
  by (induction w) simp_all

lemma dropWhile_spaces:
  "\<forall>c\<in>set sp. is_space c \<Longrightarrow> dropWhile is_space (sp @ u) = dropWhile is_space u"
  by (induction sp) simp_all

lemma replace_spaces_run:
  assumes "sp \<noteq> []" and "\<forall>c\<in>set sp. is_space c" and "\<not> is_space c"
  shows "replace_spaces (sp @ c # cs) = CHR '' '' # replace_spaces (c # cs)"
proof -
  from assms obtain d sp' where sp: "sp = d # sp'" and d: "is_space d"
    and sp': "\<forall>c\<in>set sp'. is_space c"
    by (cases sp) auto
  have "dropWhile is_space (sp' @ c # cs) = c # cs"
    using dropWhile_spaces [OF sp', of "c # cs"] assms(3) by simp
  with d show ?thesis by (simp add: sp del: replace_spaces.simps(2) add: replace_spaces.simps(2) [of d])
qed

lemma join_Cons: "ys \<noteq> [] \<Longrightarrow> join sep (x # ys) = x @ sep @ join sep ys"
  by (cases ys) simp_all

lemma value_words_Nil: "dropWhile is_space s = [] \<Longrightarrow> value_words s = []"
  by (subst value_words.simps) simp

lemma value_words_Cons:
  "dropWhile is_space s \<noteq> [] \<Longrightarrow>
   value_words s = takeWhile (\<lambda>c. \<not> is_space c) (dropWhile is_space s) #
                   value_words (dropWhile (\<lambda>c. \<not> is_space c) (dropWhile is_space s))"
  by (subst value_words.simps) (simp add: Let_def)

lemma normalize_value: "replace_spaces (trim s) = join '' '' (value_words s)"
proof (induction s rule: value_words.induct)
  case (1 s)
  define s' where "s' = dropWhile is_space s"
  show ?case
  proof (cases "s' = []")
    case True
    then show ?thesis
      by (simp add: trim_eq value_words_Nil trim_end_def flip: s'_def)
  next
    case False
    define w where "w = takeWhile (\<lambda>c. \<not> is_space c) s'"
    define r where "r = dropWhile (\<lambda>c. \<not> is_space c) s'"
    have s'_eq: "s' = w @ r" by (simp add: w_def r_def)
    have w: "\<forall>c\<in>set w. \<not> is_space c" by (auto simp: w_def dest: set_takeWhileD)
    have IH: "replace_spaces (trim r) = join '' '' (value_words r)"
      using "1.IH" [OF s'_def False] by (simp add: r_def)
    have vw: "value_words s = w # value_words r"
      using False by (simp add: value_words_Cons w_def r_def flip: s'_def)
    have ts: "trim s = trim_end (w @ r)" by (simp add: trim_eq s'_eq flip: s'_def)
    show ?thesis
    proof (cases "\<forall>x\<in>set r. is_space x")
      case True
      then have "dropWhile is_space r = []" by simp
      then have "value_words r = []" by (rule value_words_Nil)
      moreover have "replace_spaces (trim s) = w"
        using True w replace_spaces_word [of w "[]"]
        by (simp add: ts trim_end_append trim_end_word)
      ultimately show ?thesis by (simp add: vw)
    next
      case nsp: False
      define sp where "sp = takeWhile is_space r"
      define u where "u = dropWhile is_space r"
      have r_eq: "r = sp @ u" by (simp add: sp_def u_def)
      have sp: "\<forall>c\<in>set sp. is_space c" by (auto simp: sp_def dest: set_takeWhileD)
      from nsp have "u \<noteq> []" by (simp add: u_def)
      then obtain c cs where u: "u = c # cs" by (cases u) auto
      then have c: "\<not> is_space c" using u_def by (metis dropWhile_eq_Cons_conv)
      from nsp have "r \<noteq> []" by auto
      then obtain d ds where r: "r = d # ds" by (cases r) auto
      then have "is_space d" using r_def by (metis dropWhile_eq_Cons_conv)
      with r have "sp \<noteq> []" by (simp add: sp_def)
      have nu: "\<not> (\<forall>x\<in>set u. is_space x)" using u c by auto
      have "trim_end r = sp @ c # trim_end cs"
        using nu by (simp add: r_eq trim_end_append) (simp add: u trim_end_Cons c)
      then have "replace_spaces (trim_end r) = CHR '' '' # replace_spaces (c # trim_end cs)"
        using replace_spaces_run [OF \<open>sp \<noteq> []\<close> sp c] by simp
      moreover have "trim r = c # trim_end cs"
        by (simp add: trim_eq u trim_end_Cons c flip: u_def)
      moreover have "trim_end (w @ r) = w @ trim_end r"
        using nsp trim_end_append [of w r] by metis
      then have "replace_spaces (trim s) = w @ replace_spaces (trim_end r)"
        using w by (simp add: ts replace_spaces_word)
      moreover have "value_words r \<noteq> []"
        using \<open>u \<noteq> []\<close> by (simp add: value_words_Cons flip: u_def)
      ultimately show ?thesis
        using IH by (simp add: vw join_Cons)
    qed
  qed
qed


lemma value_words_are_words:
  "list_all (\<lambda>w. w \<noteq> [] \<and> list_all (\<lambda>c. \<not> is_space c) w) (value_words s)"
proof (induction s rule: value_words.induct)
  case (1 s)
  show ?case
  proof (cases "dropWhile is_space s = []")
    case True
    then show ?thesis by (simp add: value_words_Nil)
  next
    case False
    then obtain c cs where cs: "dropWhile is_space s = c # cs" by (cases "dropWhile is_space s") auto
    then have "\<not> is_space c" by (metis dropWhile_eq_Cons_conv)
    then have "takeWhile (\<lambda>c. \<not> is_space c) (dropWhile is_space s) \<noteq> []" by (simp add: cs)
    moreover have "list_all (\<lambda>c. \<not> is_space c) (takeWhile (\<lambda>c. \<not> is_space c) (dropWhile is_space s))"
      by (auto simp: list_all_iff dest: set_takeWhileD)
    ultimately show ?thesis
      using "1.IH" [OF refl False] by (simp add: value_words_Cons [OF False])
  qed
qed

lemma filter_dropWhile_spaces:
  "filter (\<lambda>c. \<not> is_space c) (dropWhile is_space s) = filter (\<lambda>c. \<not> is_space c) s"
  by (induction s) simp_all

lemma filter_takeWhile_word:
  "filter (\<lambda>c. \<not> is_space c) (takeWhile (\<lambda>c. \<not> is_space c) s) = takeWhile (\<lambda>c. \<not> is_space c) s"
  by (induction s) simp_all

lemma concat_value_words: "concat (value_words s) = filter (\<lambda>c. \<not> is_space c) s"
proof (induction s rule: value_words.induct)
  case (1 s)
  show ?case
  proof (cases "dropWhile is_space s = []")
    case True
    then have "filter (\<lambda>c. \<not> is_space c) (dropWhile is_space s) = []" by (simp only: filter.simps)
    then show ?thesis using True by (simp add: value_words_Nil filter_dropWhile_spaces)
  next
    case False
    have "filter (\<lambda>c. \<not> is_space c) s = filter (\<lambda>c. \<not> is_space c) (dropWhile is_space s)"
      by (simp add: filter_dropWhile_spaces)
    also have "\<dots> = filter (\<lambda>c. \<not> is_space c)
        (takeWhile (\<lambda>c. \<not> is_space c) (dropWhile is_space s) @
         dropWhile (\<lambda>c. \<not> is_space c) (dropWhile is_space s))"
      by simp
    also have "\<dots> = takeWhile (\<lambda>c. \<not> is_space c) (dropWhile is_space s) @
        concat (value_words (dropWhile (\<lambda>c. \<not> is_space c) (dropWhile is_space s)))"
      using "1.IH" [OF refl False] by (simp only: filter_append filter_takeWhile_word)
    finally show ?thesis by (simp add: value_words_Cons [OF False])
  qed
qed

lemma foldl_append_lines: "foldl (\<lambda>prev curr. prev @ f curr) acc xs = acc @ concat (map f xs)"
  by (induction xs arbitrary: acc) simp_all

lemma insert_cmp_map:
  assumes "\<And>a. g (h a) = a"
  shows "insert_cmp (\<lambda>a b. cmp (g a) (g b)) (h x) (map h ys) = map h (insert_cmp cmp x ys)"
  by (induction ys) (simp_all add: assms)

lemma sort_cmp_map:
  assumes "\<And>a. g (h a) = a"
  shows "sort_cmp (\<lambda>a b. cmp (g a) (g b)) (map h xs) = map h (sort_cmp cmp xs)"
  by (induction xs) (simp_all add: insert_cmp_map [of g h, OF assms])

lemma buildCanonicalHeaders_eq:
  "buildCanonicalHeaders hs = concat (map canonical_header_line (sort hs))"
proof -
  have "sort_cmp (\<lambda>a b. compare_entries (fst a, snd (snd a)) (fst b, snd (snd b)))
          (map (\<lambda>(name, v). (name, toLowerCase name, v)) hs) =
        map (\<lambda>(name, v). (name, toLowerCase name, v)) (sort_cmp compare_entries hs)"
    by (rule sort_cmp_map [where g = "\<lambda>a. (fst a, snd (snd a))"]) auto
  then show ?thesis
    by (simp add: buildCanonicalHeaders_def foldl_append_lines sort_cmp_eq_sort Let_def
        canonical_header_line_def [abs_def] normalize_value comp_def case_prod_beta)
qed

lemma example_header_line:
  "buildCanonicalHeaders [(''X-Custom'', ''  a   b  '')] = ''x-custom:a b'' @ [NL]"
  by (simp add: buildCanonicalHeaders_def trim_def is_space_def toLowerCase_def is_upper_def)

text \<open>
  C6. For every headers mapping the canonical-headers block is one line per header, the
  lower-cased name, a colon, the value and a newline, the headers sorted ascending by their
  name as given (before lower-casing) and by value when the names are equal. The value is
  trimmed and each run of white space in it is one space: it is the words of the value
  joined by single spaces, the words being non-empty, free of white space, and together
  all the characters of the value that are not white space. The header \<^verbatim>\<open>X-Custom\<close> with the
  value \<^verbatim>\<open>"  a   b  "\<close> gives the line \<^verbatim>\<open>x-custom:a b\<close> and a newline.
\<close>

theorem canonical_headers_block:
  "buildCanonicalHeaders hs = concat (map canonical_header_line (sort hs))
   \<and> canonical_header_line (name, v) =
       toLowerCase name @ '':'' @ replace_spaces (trim v) @ [NL]
   \<and> replace_spaces (trim v) = join '' '' (value_words v)
   \<and> list_all (\<lambda>w. w \<noteq> [] \<and> list_all (\<lambda>c. \<not> is_space c) w) (value_words v)
   \<and> concat (value_words v) = filter (\<lambda>c. \<not> is_space c) v
   \<and> mset (sort hs) = mset hs
   \<and> sorted_wrt entry_le (sort hs)
   \<and> (distinct (map fst hs) \<longrightarrow> sorted_wrt (\<lambda>a b. fst a < fst b) (sort hs))
   \<and> buildCanonicalHeaders [(''X-Custom'', ''  a   b  '')] = ''x-custom:a b'' @ [NL]"
  using sorted_wrt_names [OF sorted_wrt_entry_le, of hs]
  by (simp add: buildCanonicalHeaders_eq [of hs] canonical_header_line_def normalize_value
      value_words_are_words concat_value_words sorted_wrt_entry_le distinct_names_sort
      example_header_line)

theorem canonical_headers_block_witness:
  "distinct (map fst [(''x-b'', ''2''), (''X-A'', '' 1  1 '')])
   \<and> sorted_wrt (\<lambda>a b. fst a < fst b) (sort [(''x-b'', ''2''), (''X-A'', '' 1  1 '')])
   \<and> buildCanonicalHeaders [(''x-b'', ''2''), (''X-A'', '' 1  1 '')] =
       ''x-a:1 1'' @ [NL] @ ''x-b:2'' @ [NL]"
proof -
  have d: "distinct (map fst [(''x-b'', ''2''), (''X-A'', '' 1  1 '')])"
    by simp
  note t = canonical_headers_block [of "[(''x-b'', ''2''), (''X-A'', '' 1  1 '')]" "''X-A''" "'' 1  1 ''"]
  from t d have o: "sorted_wrt (\<lambda>a b. fst a < fst b) (sort [(''x-b'', ''2''), (''X-A'', '' 1  1 '')])"
    by blast
  have s: "sort [(''x-b'', ''2''), (''X-A'', '' 1  1 '')] = [(''X-A'', '' 1  1 ''), (''x-b'', ''2'')]"
    by simp
  from t have "buildCanonicalHeaders [(''x-b'', ''2''), (''X-A'', '' 1  1 '')] =
      concat (map (\<lambda>e. toLowerCase (fst e) @ '':'' @ replace_spaces (trim (snd e)) @ [NL])
        (sort [(''x-b'', ''2''), (''X-A'', '' 1  1 '')]))"
    by (simp add: canonical_header_line_def [abs_def] normalize_value)
  then have b: "buildCanonicalHeaders [(''x-b'', ''2''), (''X-A'', '' 1  1 '')] =
       ''x-a:1 1'' @ [NL] @ ''x-b:2'' @ [NL]"
    unfolding s by (simp add: trim_def is_space_def toLowerCase_def is_upper_def)
  from d o b show ?thesis by blast
qed


section \<open>Percent-encoding of the query string\<close>

text \<open>
  C4. The canonical query string of the params \<^verbatim>\<open>{"a b": "c d"}\<close> is \<^verbatim>\<open>a b=c%20d\<close>: line 119 of
  \<^verbatim>\<open>sigv4.ts\<close> encodes the value and writes the name as it is, where encoding the name as
  well would give \<^verbatim>\<open>a%20b=c%20d\<close>. The rest of the claim holds: the five characters
  \<^verbatim>\<open>! ' ( ) *\<close> of a value become \<^verbatim>\<open>%21 %27 %28 %29 %2a\<close>, and no params give the empty string.
\<close>

theorem query_name_not_encoded:
  "buildCanonicalQueryString [(''a b'', ''c d'')] = ''a b=c%20d''
   \<and> fixedEncodeURIComponent ''a b'' @ ''='' @ fixedEncodeURIComponent ''c d'' = ''a%20b=c%20d''
   \<and> fixedEncodeURIComponent [CHR ''!'', QUOTE, CHR ''('', CHR '')'', CHR ''*''] =
       ''%21%27%28%29%2a''
   \<and> buildCanonicalQueryString [] = []"
  by (simp add: buildCanonicalQueryString_def compare_entries_def fixedEncodeURIComponent_def
      encodeURIComponent_def Encode_def is_alnum_def uriMark_def escape_byte_def utf8_def
      toString16.simps)

end
